theory Spec2Isabelle
  imports Complex_Main "HOL-Library.Char_ord" "HOL-Library.List_Lexorder"
begin

section \<open>Data model\<close>

text \<open>
  The library works on pandas data frames. A cell is a number, a string or the missing
  marker (numpy's \<open>nan\<close>). Floating-point numbers are idealised as reals: rounding and
  the infinities are outside the model. A statistic that pandas reports as \<open>nan\<close> is
  \<open>None\<close> of type \<open>real option\<close>.
\<close>

datatype cell = Num real | Str string | NaN

type_synonym column = "cell list"

type_synonym pyfloat = "real option"

text \<open>
  A table has a row index, of which only the length matters here, and an ordered sequence
  of named columns. A table with no column still has its rows.
\<close>

record table =
  nrows :: nat
  cols :: "(string \<times> column) list"

definition columns :: "table \<Rightarrow> string list" where
  "columns X = map fst (cols X)"

text \<open>\<open>X[c]\<close>: the column named \<open>c\<close>, or a \<open>KeyError\<close> (here \<open>None\<close>).\<close>

definition get_col :: "table \<Rightarrow> string \<Rightarrow> column option" where
  "get_col X c = map_of (cols X) c"

text \<open>
  \<open>X[c] = v\<close>: an existing column is overwritten where it stands, a new one is appended
  at the end.
\<close>

definition set_col :: "table \<Rightarrow> string \<Rightarrow> column \<Rightarrow> table" where
  "set_col X c v =
     X\<lparr>cols := (if c \<in> set (columns X)
                then map (\<lambda>(n, x). if n = c then (n, v) else (n, x)) (cols X)
                else cols X @ [(c, v)])\<rparr>"

text \<open>
  \<open>X.drop(columns=cs)\<close> and \<open>X[cs]\<close> for a list of names. pandas raises on a name the
  table does not have; the transformers pass only names that are present, so the two
  functions are used on such lists only.
\<close>

definition drop_cols :: "table \<Rightarrow> string list \<Rightarrow> table" where
  "drop_cols X cs = X\<lparr>cols := filter (\<lambda>(n, x). n \<notin> set cs) (cols X)\<rparr>"

definition select_cols :: "table \<Rightarrow> string list \<Rightarrow> table" where
  "select_cols X cs =
     X\<lparr>cols := concat (map (\<lambda>c. case map_of (cols X) c of None \<Rightarrow> [] | Some v \<Rightarrow> [(c, v)]) cs)\<rparr>"

datatype error = AssertionError | KeyError | TypeError | ValueError

section \<open>CustomMappingTransformer\<close>

text \<open>
  A Python \<open>dict\<close> is the list of its items; its keys are distinct. \<open>Series.replace(d)\<close>
  looks every cell up in the dictionary once: all replacements are made at the same time,
  on the original values.
\<close>

type_synonym pydict = "(cell \<times> cell) list"

record mapping_transformer =
  mapping_column :: string
  mapping_dict :: pydict

definition replace_cell :: "pydict \<Rightarrow> cell \<Rightarrow> cell" where
  "replace_cell d c = (case map_of d c of Some v \<Rightarrow> v | None \<Rightarrow> c)"

datatype warning =
    KeysNotFound "cell list"
  | KeysAbsent "cell list"
  | ColumnsToDropMissing "string list"

text \<open>The two messages \<open>transform\<close> prints, in the order it prints them.\<close>

definition mapping_prints :: "mapping_transformer \<Rightarrow> column \<Rightarrow> warning list" where
  "mapping_prints t c =
     (let keys_not_found = filter (\<lambda>k. k \<notin> set c) (map fst (mapping_dict t));
          keys_absent = filter (\<lambda>v. v \<notin> set (map fst (mapping_dict t))) (remdups c)
      in (if keys_not_found \<noteq> [] then [KeysNotFound keys_not_found] else []) @
         (if keys_absent \<noteq> [] then [KeysAbsent keys_absent] else []))"

definition mapping_transform :: "mapping_transformer \<Rightarrow> table \<Rightarrow> error + table" where
  "mapping_transform t X =
     (case get_col X (mapping_column t) of
        None \<Rightarrow> Inl AssertionError
      | Some c \<Rightarrow> Inr (set_col X (mapping_column t) (map (replace_cell (mapping_dict t)) c)))"

text \<open>The inverse dictionary \<open>{v: k for k, v in d.items()}\<close>.\<close>

definition inverse_dict :: "pydict \<Rightarrow> pydict" where
  "inverse_dict d = map (\<lambda>(k, v). (v, k)) d"

section \<open>CustomOHETransformer\<close>

text \<open>
  \<open>pd.get_dummies(X[target], prefix=target)\<close> makes one indicator column for every
  distinct value of the column that is not missing (\<open>dummy_na\<close> is off), in the sorted
  order of the values, numbers before strings. The column of value \<open>v\<close> is named
  \<open>target_v\<close> and holds 1 in the rows whose cell is \<open>v\<close> and 0 elsewhere. How Python
  prints a number is the parameter \<open>fmt\<close>.
\<close>

fun cell_less :: "cell \<Rightarrow> cell \<Rightarrow> bool" where
  "cell_less (Num a) (Num b) = (a < b)"
| "cell_less (Num a) (Str t) = True"
| "cell_less (Str s) (Str t) = (s < t)"
| "cell_less u v = False"

fun insort_cell :: "cell \<Rightarrow> cell list \<Rightarrow> cell list" where
  "insort_cell v [] = [v]"
| "insort_cell v (u # us) = (if cell_less u v then u # insort_cell v us else v # u # us)"

definition sort_cells :: "cell list \<Rightarrow> cell list" where
  "sort_cells vs = foldr insort_cell vs []"

definition categories :: "column \<Rightarrow> cell list" where
  "categories c = sort_cells (remdups (filter (\<lambda>v. v \<noteq> NaN) c))"

fun py_str :: "(real \<Rightarrow> string) \<Rightarrow> cell \<Rightarrow> string" where
  "py_str fmt (Num r) = fmt r"
| "py_str fmt (Str s) = s"
| "py_str fmt NaN = ''nan''"

definition dummy_name :: "(real \<Rightarrow> string) \<Rightarrow> string \<Rightarrow> cell \<Rightarrow> string" where
  "dummy_name fmt target v = target @ ''_'' @ py_str fmt v"

definition indicator :: "cell \<Rightarrow> column \<Rightarrow> column" where
  "indicator v c = map (\<lambda>x. if x = v then Num 1 else Num 0) c"

definition get_dummies :: "(real \<Rightarrow> string) \<Rightarrow> string \<Rightarrow> column \<Rightarrow> (string \<times> column) list" where
  "get_dummies fmt target c = map (\<lambda>v. (dummy_name fmt target v, indicator v c)) (categories c)"

text \<open>
  \<open>transform\<close> drops the target column from a copy and assigns the indicator columns one
  by one. When two values print alike, \<open>dummies[col]\<close> is a frame of two columns and the
  assignment raises.
\<close>

definition ohe_transform :: "(real \<Rightarrow> string) \<Rightarrow> string \<Rightarrow> table \<Rightarrow> error + table" where
  "ohe_transform fmt target_column X =
     (case get_col X target_column of
        None \<Rightarrow> Inl AssertionError
      | Some c \<Rightarrow>
          (let dummies = get_dummies fmt target_column c
           in if \<not> distinct (map fst dummies) then Inl ValueError
              else Inr (foldl (\<lambda>T (n, v). set_col T n v) (drop_cols X [target_column]) dummies)))"

section \<open>CustomDropColumnsTransformer\<close>

record dropcols_transformer =
  column_list :: "string list"
  action :: string

definition missing_columns :: "dropcols_transformer \<Rightarrow> table \<Rightarrow> string list" where
  "missing_columns t X = remdups (filter (\<lambda>col. col \<notin> set (columns X)) (column_list t))"

definition dropcols_transform :: "dropcols_transformer \<Rightarrow> table \<Rightarrow> error + table" where
  "dropcols_transform t X =
     (if action t = ''keep'' then
        (if missing_columns t X \<noteq> [] then Inl AssertionError
         else Inr (select_cols X (filter (\<lambda>col. col \<in> set (columns X)) (column_list t))))
      else if action t = ''drop'' then
        Inr (drop_cols X (filter (\<lambda>col. col \<in> set (columns X)) (column_list t)))
      else Inr X)"

text \<open>What \<open>transform\<close> prints: the warning of the drop branch.\<close>

definition dropcols_prints :: "dropcols_transformer \<Rightarrow> table \<Rightarrow> warning list" where
  "dropcols_prints t X =
     (if action t = ''drop'' \<and> missing_columns t X \<noteq> []
      then [ColumnsToDropMissing (missing_columns t X)] else [])"

section \<open>Column statistics and arithmetic\<close>

text \<open>
  \<open>is_numeric_dtype\<close>: the column holds no string. The numbers of a column, missing
  cells skipped as pandas' reductions do.
\<close>

definition is_numeric_dtype :: "column \<Rightarrow> bool" where
  "is_numeric_dtype c \<longleftrightarrow> list_all (\<lambda>x. case x of Str s \<Rightarrow> False | _ \<Rightarrow> True) c"

fun numeric_values :: "column \<Rightarrow> real list" where
  "numeric_values [] = []"
| "numeric_values (Num r # c) = r # numeric_values c"
| "numeric_values (x # c) = numeric_values c"

definition lift2 :: "(real \<Rightarrow> real \<Rightarrow> real) \<Rightarrow> pyfloat \<Rightarrow> pyfloat \<Rightarrow> pyfloat" where
  "lift2 f a b = (case a of None \<Rightarrow> None | Some x \<Rightarrow> (case b of None \<Rightarrow> None | Some y \<Rightarrow> Some (f x y)))"

definition mean_of :: "real list \<Rightarrow> pyfloat" where
  "mean_of xs = (if xs = [] then None else Some (sum_list xs / real (length xs)))"

text \<open>\<open>Series.std()\<close>: the sample standard deviation (\<open>ddof=1\<close>).\<close>

definition std_of :: "real list \<Rightarrow> pyfloat" where
  "std_of xs =
     (if length xs < 2 then None
      else (let m = sum_list xs / real (length xs)
            in Some (sqrt (sum_list (map (\<lambda>x. (x - m)\<^sup>2) xs) / real (length xs - 1)))))"

text \<open>\<open>Series.quantile(q)\<close>, linear interpolation between the two nearest order statistics.\<close>

definition quantile :: "real \<Rightarrow> real list \<Rightarrow> pyfloat" where
  "quantile q xs =
     (if xs = [] then None
      else (let s = sort xs;
                pos = q * real (length s - 1);
                lo = nat \<lfloor>pos\<rfloor>;
                hi = min (lo + 1) (length s - 1)
            in Some (s ! lo + (pos - real lo) * (s ! hi - s ! lo))))"

definition median :: "real list \<Rightarrow> pyfloat" where
  "median xs =
     (if xs = [] then None
      else (let s = sort xs; n = length s
            in Some (if odd n then s ! (n div 2) else (s ! (n div 2 - 1) + s ! (n div 2)) / 2)))"

text \<open>
  The quantile and the median of the numbers of a column, in exact arithmetic. pandas
  computes its reductions in float64, after converting an integer column, and returns
  these numbers wherever that arithmetic is exact, as on the columns of small integers
  used in the examples.
\<close>

definition exact_quantile :: "real \<Rightarrow> column \<Rightarrow> pyfloat" where
  "exact_quantile q c = quantile q (numeric_values c)"

definition exact_median :: "column \<Rightarrow> pyfloat" where
  "exact_median c = median (numeric_values c)"

text \<open>
  \<open>Series.clip(lower, upper)\<close> with scalar bounds: a bound that is \<open>None\<close> or \<open>nan\<close> does
  not clip; two bounds are put in order first; missing cells stay missing; comparing a
  string with a number raises.
\<close>

definition wall_bound :: "pyfloat option \<Rightarrow> pyfloat" where
  "wall_bound w = (case w of None \<Rightarrow> None | Some b \<Rightarrow> b)"

definition clip_bounds :: "pyfloat \<Rightarrow> pyfloat \<Rightarrow> pyfloat \<times> pyfloat" where
  "clip_bounds lower upper =
     (case (lower, upper) of
        (Some l, Some u) \<Rightarrow> (Some (min l u), Some (max l u))
      | _ \<Rightarrow> (lower, upper))"

definition clip_num :: "pyfloat \<Rightarrow> pyfloat \<Rightarrow> real \<Rightarrow> real" where
  "clip_num lower upper v =
     (let r = (case lower of None \<Rightarrow> v | Some l \<Rightarrow> if v \<ge> l then v else l)
      in case upper of None \<Rightarrow> r | Some u \<Rightarrow> if v \<le> u then r else u)"

fun clip_cell :: "pyfloat \<Rightarrow> pyfloat \<Rightarrow> cell \<Rightarrow> cell option" where
  "clip_cell lower upper (Num v) = Some (Num (clip_num lower upper v))"
| "clip_cell lower upper NaN = Some NaN"
| "clip_cell lower upper (Str s) = (if lower = None \<and> upper = None then Some (Str s) else None)"

fun sequence :: "'a option list \<Rightarrow> 'a list option" where
  "sequence [] = Some []"
| "sequence (x # xs) =
     (case x of None \<Rightarrow> None
      | Some y \<Rightarrow> (case sequence xs of None \<Rightarrow> None | Some ys \<Rightarrow> Some (y # ys)))"

definition clip :: "pyfloat \<Rightarrow> pyfloat \<Rightarrow> column \<Rightarrow> column option" where
  "clip lower upper c =
     (let (l, u) = clip_bounds lower upper in sequence (map (clip_cell l u) c))"

section \<open>CustomSigma3Transformer\<close>

record sigma3_transformer =
  sigma3_target_column :: string
  high_wall :: "pyfloat option"
  low_wall :: "pyfloat option"

definition sigma3_fit :: "sigma3_transformer \<Rightarrow> table \<Rightarrow> error + sigma3_transformer" where
  "sigma3_fit t X =
     (case get_col X (sigma3_target_column t) of
        None \<Rightarrow> Inl AssertionError
      | Some c \<Rightarrow>
          (if \<not> is_numeric_dtype c then Inl AssertionError
           else (let mean = mean_of (numeric_values c); std = std_of (numeric_values c)
                 in Inr (t\<lparr>low_wall := Some (lift2 (-) mean (lift2 (*) (Some 3) std)),
                          high_wall := Some (lift2 (+) mean (lift2 (*) (Some 3) std))\<rparr>))))"

definition sigma3_transform :: "sigma3_transformer \<Rightarrow> table \<Rightarrow> error + table" where
  "sigma3_transform t X =
     (if high_wall t = None \<or> low_wall t = None then Inl AssertionError
      else (case get_col X (sigma3_target_column t) of
              None \<Rightarrow> Inl AssertionError
            | Some c \<Rightarrow>
                (case clip (wall_bound (low_wall t)) (wall_bound (high_wall t)) c of
                   None \<Rightarrow> Inl TypeError
                 | Some c' \<Rightarrow> Inr (set_col X (sigma3_target_column t) c'))))"

section \<open>CustomTukeyTransformer\<close>

record tukey_transformer =
  tukey_target_column :: string
  fence :: string
  inner_low :: "pyfloat option"
  outer_low :: "pyfloat option"
  inner_high :: "pyfloat option"
  outer_high :: "pyfloat option"

definition tukey_fit :: "tukey_transformer \<Rightarrow> table \<Rightarrow> error + tukey_transformer" where
  "tukey_fit t X =
     (case get_col X (tukey_target_column t) of
        None \<Rightarrow> Inl AssertionError
      | Some c \<Rightarrow>
          (if \<not> is_numeric_dtype c then Inl AssertionError
           else if fence t \<notin> {''inner'', ''outer''} then Inl AssertionError
           else (let q1 = quantile 0.25 (numeric_values c);
                     q3 = quantile 0.75 (numeric_values c);
                     iqr = lift2 (-) q3 q1
                 in Inr (t\<lparr>inner_low := Some (lift2 (-) q1 (lift2 (*) (Some 1.5) iqr)),
                          inner_high := Some (lift2 (+) q3 (lift2 (*) (Some 1.5) iqr)),
                          outer_low := Some (lift2 (-) q1 (lift2 (*) (Some 3.0) iqr)),
                          outer_high := Some (lift2 (+) q3 (lift2 (*) (Some 3.0) iqr))\<rparr>))))"

definition tukey_transform :: "tukey_transformer \<Rightarrow> table \<Rightarrow> error + table" where
  "tukey_transform t X =
     (if inner_low t = None \<or> inner_high t = None then Inl AssertionError
      else (case get_col X (tukey_target_column t) of
              None \<Rightarrow> Inl AssertionError
            | Some c \<Rightarrow>
                (case (if fence t = ''inner''
                       then clip (wall_bound (inner_low t)) (wall_bound (inner_high t)) c
                       else clip (wall_bound (outer_low t)) (wall_bound (outer_high t)) c) of
                   None \<Rightarrow> Inl TypeError
                 | Some c' \<Rightarrow> Inr (set_col X (tukey_target_column t) c'))))"

section \<open>CustomRobustTransformer\<close>

record robust_transformer =
  robust_target_column :: string
  iqr :: "pyfloat option"
  med :: "pyfloat option"

text \<open>
  \<open>fit\<close> stores what pandas returns. \<open>X[col].quantile(q)\<close> and \<open>X[col].median()\<close> are
  pandas' float64 reductions of the column and are the parameters \<open>series_quantile\<close> and
  \<open>series_median\<close>: on the integer column \<open>[2**53, 2**53 + 1]\<close> both quartiles and the median
  come back as \<open>2**53\<close> and the stored IQR is 0, not the exact 1/2. The difference of two
  float64 numbers is zero exactly when they are equal, so the test \<open>iqr != 0\<close> of
  \<open>transform\<close> takes the same branch on the difference written here.
\<close>

definition robust_fit ::
  "(real \<Rightarrow> column \<Rightarrow> pyfloat) \<Rightarrow> (column \<Rightarrow> pyfloat) \<Rightarrow>
     robust_transformer \<Rightarrow> table \<Rightarrow> error + robust_transformer" where
  "robust_fit series_quantile series_median t X =
     (case get_col X (robust_target_column t) of
        None \<Rightarrow> Inl AssertionError
      | Some c \<Rightarrow>
          (if \<not> is_numeric_dtype c then Inl TypeError
           else (let q1 = series_quantile 0.25 c;
                     q3 = series_quantile 0.75 c
                 in Inr (t\<lparr>iqr := Some (lift2 (-) q3 q1),
                          med := Some (series_median c)\<rparr>))))"

text \<open>\<open>(v - med) / iqr\<close> on one cell; a \<open>nan\<close> operand gives \<open>nan\<close>, a string raises.\<close>

fun scale_cell :: "pyfloat \<Rightarrow> pyfloat \<Rightarrow> cell \<Rightarrow> cell option" where
  "scale_cell m q (Num v) =
     Some (case lift2 (/) (lift2 (-) (Some v) m) q of None \<Rightarrow> NaN | Some r \<Rightarrow> Num r)"
| "scale_cell m q NaN = Some NaN"
| "scale_cell m q (Str s) = None"

definition robust_transform :: "robust_transformer \<Rightarrow> table \<Rightarrow> error + table" where
  "robust_transform t X =
     (if iqr t = None \<or> med t = None then Inl AssertionError
      else if wall_bound (iqr t) \<noteq> Some 0 then
        (case get_col X (robust_target_column t) of
           None \<Rightarrow> Inl KeyError
         | Some c \<Rightarrow>
             (case sequence (map (scale_cell (wall_bound (med t)) (wall_bound (iqr t))) c) of
                None \<Rightarrow> Inl TypeError
              | Some c' \<Rightarrow> Inr (set_col X (robust_target_column t) c')))
      else Inr X)"

section \<open>CustomKNNTransformer\<close>

text \<open>
  The fitted \<open>KNNImputer\<close> belongs to scikit-learn: its \<open>transform\<close> is the parameter
  \<open>imputer_transform\<close>, which returns the imputed array column by column or raises. The
  array is wrapped in a new frame with the index and the column names of the input.
\<close>

record knn_transformer =
  n_neighbors :: nat
  weights :: string
  fitted :: bool

definition knn_transform ::
  "(table \<Rightarrow> error + column list) \<Rightarrow> knn_transformer \<Rightarrow> table \<Rightarrow> error + table" where
  "knn_transform imputer_transform t X =
     (if \<not> fitted t then Inl ValueError
      else (case imputer_transform X of
              Inl e \<Rightarrow> Inl e
            | Inr imputed_array \<Rightarrow>
                (if length imputed_array \<noteq> length (columns X)
                    \<or> \<not> list_all (\<lambda>c. length c = nrows X) imputed_array
                 then Inl ValueError
                 else Inr (X\<lparr>cols := zip (columns X) imputed_array\<rparr>))))"

section \<open>CustomTargetTransformer\<close>

text \<open>
  The labels are numbers. \<open>value_counts\<close> and \<open>groupby\<close> leave the missing category out.
  The dictionary lists the categories in the order of their first occurrence; the order of
  a dictionary is not observable through lookups. For a negative smoothing with
  \<open>n + smoothing = 0\<close> numpy's quotient is infinite or \<open>nan\<close>, with a warning: no finite
  number, which is \<open>None\<close> here. The fields \<open>global_mean\<close> and \<open>encoding_dict\<close> are the
  attributes \<open>global_mean_\<close> and \<open>encoding_dict_\<close> of the class.
\<close>

record target_transformer =
  col :: string
  smoothing :: real
  global_mean :: "pyfloat option"
  encoding_dict :: "(cell \<times> pyfloat) list option"

definition category_labels :: "column \<Rightarrow> real list \<Rightarrow> cell \<Rightarrow> real list" where
  "category_labels c y category = map snd (filter (\<lambda>(x, l). x = category) (zip c y))"

definition smoothed_mean :: "nat \<Rightarrow> pyfloat \<Rightarrow> real \<Rightarrow> pyfloat \<Rightarrow> pyfloat" where
  "smoothed_mean n category_mean s gm =
     (if real n + s = 0 then None
      else lift2 (/) (lift2 (+) (lift2 (*) (Some (real n)) category_mean) (lift2 (*) (Some s) gm))
             (Some (real n + s)))"

definition target_fit ::
  "target_transformer \<Rightarrow> table \<Rightarrow> real list \<Rightarrow> error + target_transformer" where
  "target_fit t X y =
     (case get_col X (col t) of
        None \<Rightarrow> Inl AssertionError
      | Some c \<Rightarrow>
          (if nrows X \<noteq> length y then Inl AssertionError
           else (let gm = mean_of y;
                     counts = map (\<lambda>k. (k, count_list c k)) (remdups (filter (\<lambda>v. v \<noteq> NaN) c));
                     smoothed_means =
                       map (\<lambda>(category, n).
                              (category,
                               smoothed_mean n (mean_of (category_labels c y category))
                                 (smoothing t) gm)) counts
                 in Inr (t\<lparr>global_mean := Some gm, encoding_dict := Some smoothed_means\<rparr>))))"

text \<open>
  \<open>assert self.encoding_dict_\<close> tests the truth value: it fails on \<open>None\<close> and on the
  empty dictionary. \<open>Series.map(d)\<close> gives \<open>nan\<close> for a cell that is not a key.
\<close>

definition encode_cell :: "(cell \<times> pyfloat) list \<Rightarrow> cell \<Rightarrow> cell" where
  "encode_cell d x = (case map_of d x of Some (Some r) \<Rightarrow> Num r | _ \<Rightarrow> NaN)"

definition target_transform :: "target_transformer \<Rightarrow> table \<Rightarrow> error + table" where
  "target_transform t X =
     (case encoding_dict t of
        None \<Rightarrow> Inl AssertionError
      | Some d \<Rightarrow>
          (if d = [] then Inl AssertionError
           else (case get_col X (col t) of
                   None \<Rightarrow> Inl KeyError
                 | Some c \<Rightarrow> Inr (set_col X (col t) (map (encode_cell d) c)))))"

section \<open>The split-stability search\<close>

text \<open>
  For the seed \<open>i\<close> the split, the pipeline, the classifier and the metric are
  scikit-learn's: \<open>evaluate i\<close> is the pair of the train and the test F1 score they give
  at that seed, or the exception they raise. The loop collects the ratios of the seeds it
  does not skip; \<open>np.argmin\<close> is the index of the first least element and raises on an
  empty array.
\<close>

fun collect_ratios :: "(nat \<Rightarrow> error + real \<times> real) \<Rightarrow> nat list \<Rightarrow> real list \<Rightarrow> error + real list" where
  "collect_ratios evaluate [] Var = Inr Var"
| "collect_ratios evaluate (i # seeds) Var =
     (case evaluate i of
        Inl e \<Rightarrow> Inl e
      | Inr (train_f1, test_f1) \<Rightarrow>
          (if train_f1 < 0.1 then collect_ratios evaluate seeds Var
           else collect_ratios evaluate seeds (Var @ [test_f1 / train_f1])))"

fun argmin_from :: "nat \<Rightarrow> real \<Rightarrow> nat \<Rightarrow> real list \<Rightarrow> nat" where
  "argmin_from best best_val i [] = best"
| "argmin_from best best_val i (x # xs) =
     (if x < best_val then argmin_from i x (Suc i) xs else argmin_from best best_val (Suc i) xs)"

definition argmin :: "real list \<Rightarrow> nat option" where
  "argmin xs = (case xs of [] \<Rightarrow> None | x # rest \<Rightarrow> Some (argmin_from 0 x 1 rest))"

definition find_random_state ::
  "(nat \<Rightarrow> error + real \<times> real) \<Rightarrow> int \<Rightarrow> error + nat \<times> real list" where
  "find_random_state evaluate n =
     (case collect_ratios evaluate [0..<nat n] [] of
        Inl e \<Rightarrow> Inl e
      | Inr Var \<Rightarrow>
          (case argmin (map (\<lambda>r. \<bar>r - sum_list Var / real (length Var)\<bar>) Var) of
             None \<Rightarrow> Inl ValueError
           | Some rs_value \<Rightarrow> Inr (rs_value, Var)))"

section \<open>The operators as one interface\<close>

datatype operator =
    Mapping mapping_transformer
  | OHE "real \<Rightarrow> string" string
  | DropColumns dropcols_transformer
  | Sigma3 sigma3_transformer
  | Tukey tukey_transformer
  | Robust robust_transformer
  | KNN "table \<Rightarrow> error + column list" knn_transformer
  | Target target_transformer

fun transform :: "operator \<Rightarrow> table \<Rightarrow> error + table" where
  "transform (Mapping t) X = mapping_transform t X"
| "transform (OHE fmt target_column) X = ohe_transform fmt target_column X"
| "transform (DropColumns t) X = dropcols_transform t X"
| "transform (Sigma3 t) X = sigma3_transform t X"
| "transform (Tukey t) X = tukey_transform t X"
| "transform (Robust t) X = robust_transform t X"
| "transform (KNN imputer_transform t) X = knn_transform imputer_transform t X"
| "transform (Target t) X = target_transform t X"

section \<open>Data frames as objects\<close>

text \<open>
  A data frame is a mutable object and the caller keeps a reference to the one it passes.
  The heap lists the frames allocated so far; a reference is a position in it.
  \<open>X.copy()\<close>, \<open>X.drop(columns=...)\<close>, \<open>X[[...]]\<close> and \<open>pd.DataFrame(...)\<close> allocate a new
  frame; \<open>X[c] = v\<close> writes into the frame \<open>X\<close> refers to. A column read from a frame is a
  value: \<open>replace\<close>, \<open>clip\<close>, \<open>map\<close> and the arithmetic return new columns.
\<close>

type_synonym ref = nat

type_synonym heap = "table list"

definition alloc :: "table \<Rightarrow> heap \<Rightarrow> ref \<times> heap" where
  "alloc T h = (length h, h @ [T])"

definition df_copy :: "ref \<Rightarrow> heap \<Rightarrow> ref \<times> heap" where
  "df_copy r h = alloc (h ! r) h"

definition df_getitem :: "ref \<Rightarrow> string \<Rightarrow> heap \<Rightarrow> column option" where
  "df_getitem r c h = get_col (h ! r) c"

definition df_setitem :: "ref \<Rightarrow> string \<Rightarrow> column \<Rightarrow> heap \<Rightarrow> heap" where
  "df_setitem r c v h = h[r := set_col (h ! r) c v]"

definition df_drop :: "ref \<Rightarrow> string list \<Rightarrow> heap \<Rightarrow> ref \<times> heap" where
  "df_drop r cs h = alloc (drop_cols (h ! r) cs) h"

definition df_select :: "ref \<Rightarrow> string list \<Rightarrow> heap \<Rightarrow> ref \<times> heap" where
  "df_select r cs h = alloc (select_cols (h ! r) cs) h"

text \<open>
  Each \<open>transform\<close> again, statement by statement, on a reference \<open>X\<close> into the heap. The
  result is the reference returned, or the exception raised, and the heap the call leaves.
\<close>

definition mapping_transform_st ::
  "mapping_transformer \<Rightarrow> ref \<Rightarrow> heap \<Rightarrow> (error + ref) \<times> heap" where
  "mapping_transform_st t X h =
     (case df_getitem X (mapping_column t) h of
        None \<Rightarrow> (Inl AssertionError, h)
      | Some c0 \<Rightarrow>
          (let (X', h1) = df_copy X h
           in case df_getitem X' (mapping_column t) h1 of
                None \<Rightarrow> (Inl KeyError, h1)
              | Some c \<Rightarrow>
                  (Inr X', df_setitem X' (mapping_column t) (map (replace_cell (mapping_dict t)) c) h1)))"

definition ohe_transform_st ::
  "(real \<Rightarrow> string) \<Rightarrow> string \<Rightarrow> ref \<Rightarrow> heap \<Rightarrow> (error + ref) \<times> heap" where
  "ohe_transform_st fmt target_column X h =
     (case df_getitem X target_column h of
        None \<Rightarrow> (Inl AssertionError, h)
      | Some c \<Rightarrow>
          (let dummies = get_dummies fmt target_column c;
               (X1, h1) = df_copy X h;
               (X2, h2) = df_drop X1 [target_column] h1
           in if \<not> distinct (map fst dummies) then (Inl ValueError, h2)
              else (Inr X2, foldl (\<lambda>h' (n, v). df_setitem X2 n v h') h2 dummies)))"

definition dropcols_transform_st ::
  "dropcols_transformer \<Rightarrow> ref \<Rightarrow> heap \<Rightarrow> (error + ref) \<times> heap" where
  "dropcols_transform_st t X h =
     (let (X1, h1) = df_copy X h
      in if action t = ''keep'' then
           (if missing_columns t (h1 ! X) \<noteq> [] then (Inl AssertionError, h1)
            else (let (X2, h2) =
                        df_select X1 (filter (\<lambda>col. col \<in> set (columns (h1 ! X))) (column_list t)) h1
                  in (Inr X2, h2)))
         else if action t = ''drop'' then
           (let (X2, h2) =
                  df_drop X1 (filter (\<lambda>col. col \<in> set (columns (h1 ! X))) (column_list t)) h1
            in (Inr X2, h2))
         else (Inr X1, h1))"

definition sigma3_transform_st ::
  "sigma3_transformer \<Rightarrow> ref \<Rightarrow> heap \<Rightarrow> (error + ref) \<times> heap" where
  "sigma3_transform_st t X h =
     (if high_wall t = None \<or> low_wall t = None then (Inl AssertionError, h)
      else (case df_getitem X (sigma3_target_column t) h of
              None \<Rightarrow> (Inl AssertionError, h)
            | Some c0 \<Rightarrow>
                (let (X', h1) = df_copy X h
                 in case df_getitem X' (sigma3_target_column t) h1 of
                      None \<Rightarrow> (Inl KeyError, h1)
                    | Some c \<Rightarrow>
                        (case clip (wall_bound (low_wall t)) (wall_bound (high_wall t)) c of
                           None \<Rightarrow> (Inl TypeError, h1)
                         | Some c' \<Rightarrow> (Inr X', df_setitem X' (sigma3_target_column t) c' h1)))))"

definition tukey_transform_st ::
  "tukey_transformer \<Rightarrow> ref \<Rightarrow> heap \<Rightarrow> (error + ref) \<times> heap" where
  "tukey_transform_st t X h =
     (if inner_low t = None \<or> inner_high t = None then (Inl AssertionError, h)
      else (case df_getitem X (tukey_target_column t) h of
              None \<Rightarrow> (Inl AssertionError, h)
            | Some c0 \<Rightarrow>
                (let (X', h1) = df_copy X h
                 in case df_getitem X' (tukey_target_column t) h1 of
                      None \<Rightarrow> (Inl KeyError, h1)
                    | Some c \<Rightarrow>
                        (case (if fence t = ''inner''
                               then clip (wall_bound (inner_low t)) (wall_bound (inner_high t)) c
                               else clip (wall_bound (outer_low t)) (wall_bound (outer_high t)) c) of
                           None \<Rightarrow> (Inl TypeError, h1)
                         | Some c' \<Rightarrow> (Inr X', df_setitem X' (tukey_target_column t) c' h1)))))"

definition robust_transform_st ::
  "robust_transformer \<Rightarrow> ref \<Rightarrow> heap \<Rightarrow> (error + ref) \<times> heap" where
  "robust_transform_st t X h =
     (if iqr t = None \<or> med t = None then (Inl AssertionError, h)
      else (let (X', h1) = df_copy X h
            in if wall_bound (iqr t) \<noteq> Some 0 then
                 (case df_getitem X (robust_target_column t) h1 of
                    None \<Rightarrow> (Inl KeyError, h1)
                  | Some c \<Rightarrow>
                      (case sequence (map (scale_cell (wall_bound (med t)) (wall_bound (iqr t))) c) of
                         None \<Rightarrow> (Inl TypeError, h1)
                       | Some c' \<Rightarrow> (Inr X', df_setitem X' (robust_target_column t) c' h1)))
               else (Inr X', h1)))"

definition knn_transform_st ::
  "(table \<Rightarrow> error + column list) \<Rightarrow> knn_transformer \<Rightarrow> ref \<Rightarrow> heap \<Rightarrow> (error + ref) \<times> heap" where
  "knn_transform_st imputer_transform t X h =
     (if \<not> fitted t then (Inl ValueError, h)
      else (case imputer_transform (h ! X) of
              Inl e \<Rightarrow> (Inl e, h)
            | Inr imputed_array \<Rightarrow>
                (if length imputed_array \<noteq> length (columns (h ! X))
                    \<or> \<not> list_all (\<lambda>c. length c = nrows (h ! X)) imputed_array
                 then (Inl ValueError, h)
                 else (let (X', h1) = alloc ((h ! X)\<lparr>cols := zip (columns (h ! X)) imputed_array\<rparr>) h
                       in (Inr X', h1)))))"

definition target_transform_st ::
  "target_transformer \<Rightarrow> ref \<Rightarrow> heap \<Rightarrow> (error + ref) \<times> heap" where
  "target_transform_st t X h =
     (case encoding_dict t of
        None \<Rightarrow> (Inl AssertionError, h)
      | Some d \<Rightarrow>
          (if d = [] then (Inl AssertionError, h)
           else (let (X', h1) = df_copy X h
                 in case df_getitem X' (col t) h1 of
                      None \<Rightarrow> (Inl KeyError, h1)
                    | Some c \<Rightarrow> (Inr X', df_setitem X' (col t) (map (encode_cell d) c) h1))))"

fun transform_st :: "operator \<Rightarrow> ref \<Rightarrow> heap \<Rightarrow> (error + ref) \<times> heap" where
  "transform_st (Mapping t) X h = mapping_transform_st t X h"
| "transform_st (OHE fmt target_column) X h = ohe_transform_st fmt target_column X h"
| "transform_st (DropColumns t) X h = dropcols_transform_st t X h"
| "transform_st (Sigma3 t) X h = sigma3_transform_st t X h"
| "transform_st (Tukey t) X h = tukey_transform_st t X h"
| "transform_st (Robust t) X h = robust_transform_st t X h"
| "transform_st (KNN imputer_transform t) X h = knn_transform_st imputer_transform t X h"
| "transform_st (Target t) X h = target_transform_st t X h"

section \<open>Tables: basic facts\<close>

lemma get_col_Some_columns: "get_col X c = Some v \<Longrightarrow> c \<in> set (columns X)"
  by (auto simp: get_col_def columns_def dest: map_of_SomeD intro: rev_image_eqI)

lemma get_col_None_columns: "get_col X c = None \<longleftrightarrow> c \<notin> set (columns X)"
  by (simp add: get_col_def columns_def map_of_eq_None_iff)

lemma columns_set_col_present:
  "c \<in> set (columns X) \<Longrightarrow> columns (set_col X c v) = columns X"
  by (auto simp: set_col_def columns_def split: prod.splits)

lemma nrows_set_col: "nrows (set_col X c v) = nrows X"
  by (simp add: set_col_def)

lemma map_of_overwrite:
  "map_of (map (\<lambda>(n, x). if n = c then (n, v) else (n, x)) xs) k =
     (if k = c then (if c \<in> fst ` set xs then Some v else None) else map_of xs k)"
  by (induction xs) (force split: prod.splits)+

lemma get_col_set_col_same: "get_col (set_col X c v) c = Some v"
proof (cases "c \<in> set (columns X)")
  case True
  then show ?thesis
    by (simp add: get_col_def set_col_def columns_def map_of_overwrite)
next
  case False
  then have "map_of (cols X) c = None"
    by (simp add: columns_def map_of_eq_None_iff)
  with False show ?thesis
    by (simp add: get_col_def set_col_def map_add_def)
qed

lemma get_col_set_col_other: "k \<noteq> c \<Longrightarrow> get_col (set_col X c v) k = get_col X k"
  by (auto simp: get_col_def set_col_def columns_def map_of_overwrite map_add_def
      split: option.splits)

section \<open>Mapping: replacement and round trip\<close>

lemma map_of_inverse_dict:
  assumes "distinct (map snd d)" and "(k, v) \<in> set d"
  shows "map_of (inverse_dict d) v = Some k"
proof -
  have "map fst (inverse_dict d) = map snd d"
    by (induction d) (auto simp: inverse_dict_def)
  with assms(1) have "distinct (map fst (inverse_dict d))" by simp
  moreover from assms(2) have "(v, k) \<in> set (inverse_dict d)"
    by (force simp: inverse_dict_def)
  ultimately show ?thesis by simp
qed

lemma map_of_inverse_dict_None:
  "v \<notin> snd ` set d \<Longrightarrow> map_of (inverse_dict d) v = None"
  by (force simp: inverse_dict_def map_of_eq_None_iff)

lemma replace_cell_roundtrip:
  assumes "distinct (map snd d)"
    and "v \<notin> fst ` set d \<longrightarrow> v \<notin> snd ` set d"
  shows "replace_cell (inverse_dict d) (replace_cell d v) = v"
proof (cases "map_of d v")
  case None
  then have "v \<notin> fst ` set d" by (simp add: map_of_eq_None_iff)
  with assms None show ?thesis
    by (simp add: replace_cell_def map_of_inverse_dict_None)
next
  case (Some w)
  then have "(v, w) \<in> set d" by (rule map_of_SomeD)
  with assms(1) Some show ?thesis
    by (simp add: replace_cell_def map_of_inverse_dict)
qed

text \<open>
  C3 (amended). On a table that has the mapping column, \<open>transform\<close> succeeds; in the
  mapping column every cell that is a key of the dictionary is replaced by its image and
  every other cell is unchanged; the other columns, the column order and the row count
  are unchanged. When the dictionary is injective and no cell of the column that is not
  a key is one of the dictionary's values, transforming the result with the inverse
  dictionary gives the original column back.
\<close>

theorem mapping_transform_spec:
  assumes "get_col X (mapping_column t) = Some c"
  shows "\<exists>Y. mapping_transform t X = Inr Y
           \<and> get_col Y (mapping_column t)
               = Some (map (\<lambda>v. case map_of (mapping_dict t) v of Some w \<Rightarrow> w | None \<Rightarrow> v) c)
           \<and> (\<forall>k. k \<noteq> mapping_column t \<longrightarrow> get_col Y k = get_col X k)
           \<and> columns Y = columns X \<and> nrows Y = nrows X
           \<and> (distinct (map snd (mapping_dict t))
                \<and> (\<forall>v \<in> set c. v \<notin> fst ` set (mapping_dict t) \<longrightarrow> v \<notin> snd ` set (mapping_dict t))
              \<longrightarrow> (\<exists>Z. mapping_transform (t\<lparr>mapping_dict := inverse_dict (mapping_dict t)\<rparr>) Y = Inr Z
                      \<and> get_col Z (mapping_column t) = Some c))"
proof -
  let ?col = "mapping_column t"
  let ?d = "mapping_dict t"
  let ?Y = "set_col X ?col (map (replace_cell ?d) c)"
  have run: "mapping_transform t X = Inr ?Y"
    using assms by (simp add: mapping_transform_def)
  have cell: "get_col ?Y ?col = Some (map (\<lambda>v. case map_of ?d v of Some w \<Rightarrow> w | None \<Rightarrow> v) c)"
    by (simp add: get_col_set_col_same replace_cell_def)
  have others: "\<forall>k. k \<noteq> ?col \<longrightarrow> get_col ?Y k = get_col X k"
    by (simp add: get_col_set_col_other)
  have shape: "columns ?Y = columns X \<and> nrows ?Y = nrows X"
    using assms by (simp add: columns_set_col_present get_col_Some_columns nrows_set_col)
  have rt: "\<exists>Z. mapping_transform (t\<lparr>mapping_dict := inverse_dict ?d\<rparr>) ?Y = Inr Z
                 \<and> get_col Z ?col = Some c"
    if inj: "distinct (map snd ?d)"
      and free: "\<forall>v \<in> set c. v \<notin> fst ` set ?d \<longrightarrow> v \<notin> snd ` set ?d"
  proof -
    have "map (replace_cell (inverse_dict ?d)) (map (replace_cell ?d) c) = c"
      using inj free by (simp add: replace_cell_roundtrip map_idI)
    then show ?thesis
      by (simp add: mapping_transform_def get_col_set_col_same)
  qed
  from run cell others shape rt show ?thesis by blast
qed

text \<open>
  The theorem at the dictionary \<open>{'a': 0, 'b': 1}\<close> and the column \<open>['a', 'b', 'z']\<close>.
\<close>

theorem mapping_transform_spec_witness:
  "get_col \<lparr>nrows = 3, cols = [(''c'', [Str ''a'', Str ''b'', Str ''z''])]\<rparr> ''c''
     = Some [Str ''a'', Str ''b'', Str ''z'']
   \<and> distinct (map snd [(Str ''a'', Num 0), (Str ''b'', Num 1)])
   \<and> Str ''z'' \<notin> snd ` set [(Str ''a'', Num 0), (Str ''b'', Num 1)]
   \<and> mapping_transform \<lparr>mapping_column = ''c'', mapping_dict = [(Str ''a'', Num 0), (Str ''b'', Num 1)]\<rparr>
        \<lparr>nrows = 3, cols = [(''c'', [Str ''a'', Str ''b'', Str ''z''])]\<rparr>
       = Inr \<lparr>nrows = 3, cols = [(''c'', [Num 0, Num 1, Str ''z''])]\<rparr>
   \<and> mapping_transform \<lparr>mapping_column = ''c'',
          mapping_dict = inverse_dict [(Str ''a'', Num 0), (Str ''b'', Num 1)]\<rparr>
        \<lparr>nrows = 3, cols = [(''c'', [Num 0, Num 1, Str ''z''])]\<rparr>
       = Inr \<lparr>nrows = 3, cols = [(''c'', [Str ''a'', Str ''b'', Str ''z''])]\<rparr>"
  using mapping_transform_spec [of "\<lparr>nrows = 3, cols = [(''c'', [Str ''a'', Str ''b'', Str ''z''])]\<rparr>"
      "\<lparr>mapping_column = ''c'', mapping_dict = [(Str ''a'', Num 0), (Str ''b'', Num 1)]\<rparr>"
      "[Str ''a'', Str ''b'', Str ''z'']"]
  by (simp add: mapping_transform_def get_col_def set_col_def columns_def replace_cell_def
      inverse_dict_def)

text \<open>
  The round trip of C3 as stated fails: \<open>{'a': 'b'}\<close> is a bijection from its keys onto
  its values, and the column \<open>['a', 'b']\<close> comes back as \<open>['a', 'a']\<close>.
\<close>

theorem mapping_roundtrip_counterexample:
  "distinct (map fst [(Str ''a'', Str ''b'')]) \<and> distinct (map snd [(Str ''a'', Str ''b'')])
   \<and> mapping_transform \<lparr>mapping_column = ''c'', mapping_dict = [(Str ''a'', Str ''b'')]\<rparr>
        \<lparr>nrows = 2, cols = [(''c'', [Str ''a'', Str ''b''])]\<rparr>
       = Inr \<lparr>nrows = 2, cols = [(''c'', [Str ''b'', Str ''b''])]\<rparr>
   \<and> mapping_transform \<lparr>mapping_column = ''c'', mapping_dict = inverse_dict [(Str ''a'', Str ''b'')]\<rparr>
        \<lparr>nrows = 2, cols = [(''c'', [Str ''b'', Str ''b''])]\<rparr>
       = Inr \<lparr>nrows = 2, cols = [(''c'', [Str ''a'', Str ''a''])]\<rparr>
   \<and> [Str ''a'', Str ''a''] \<noteq> [Str ''a'', Str ''b'']"
  by (simp add: mapping_transform_def get_col_def set_col_def columns_def replace_cell_def
      inverse_dict_def)

section \<open>Column selector\<close>

lemma nrows_select_cols: "nrows (select_cols X cs) = nrows X"
  by (simp add: select_cols_def)

lemma nrows_drop_cols: "nrows (drop_cols X cs) = nrows X"
  by (simp add: drop_cols_def)

lemma columns_select_cols:
  "set cs \<subseteq> set (columns X) \<Longrightarrow> columns (select_cols X cs) = cs"
proof (induction cs)
  case Nil
  then show ?case by (simp add: select_cols_def columns_def)
next
  case (Cons c cs)
  then obtain v where "map_of (cols X) c = Some v"
    by (auto simp: columns_def dest!: weak_map_of_SomeI)
  with Cons show ?case by (simp add: select_cols_def columns_def)
qed

lemma columns_drop_cols: "columns (drop_cols X cs) = filter (\<lambda>n. n \<notin> set cs) (columns X)"
  by (simp add: drop_cols_def columns_def filter_map comp_def case_prod_unfold)

lemma get_col_select_cols:
  assumes "k \<in> set cs" and "k \<in> set (columns X)"
  shows "get_col (select_cols X cs) k = get_col X k"
proof -
  from assms(2) obtain v where v: "map_of (cols X) k = Some v"
    by (auto simp: columns_def dest!: weak_map_of_SomeI)
  have "map_of (concat (map (\<lambda>c. case map_of (cols X) c of None \<Rightarrow> [] | Some v \<Rightarrow> [(c, v)]) cs)) k
          = Some v"
    using assms(1) v by (induction cs) (auto split: option.splits)
  with v show ?thesis by (simp add: get_col_def select_cols_def)
qed

lemma get_col_drop_cols:
  "k \<notin> set cs \<Longrightarrow> get_col (drop_cols X cs) k = get_col X k"
proof -
  assume k: "k \<notin> set cs"
  have "map_of (filter (\<lambda>(n, x). n \<notin> set cs) xs) k = map_of xs k" for xs :: "(string \<times> column) list"
    using k by (induction xs) auto
  then show ?thesis by (simp add: get_col_def drop_cols_def)
qed

lemma get_col_drop_cols_dropped:
  "k \<in> set cs \<Longrightarrow> get_col (drop_cols X cs) k = None"
  by (auto simp: get_col_def drop_cols_def map_of_eq_None_iff)

lemma missing_columns_empty:
  "missing_columns t X = [] \<longleftrightarrow> set (column_list t) \<subseteq> set (columns X)"
  by (auto simp: missing_columns_def filter_empty_conv)

text \<open>
  C8. In keep mode \<open>transform\<close> fails when a listed column is absent from the table;
  otherwise it returns exactly the listed columns, in the listed order, each with its
  cells, and the row count is preserved. In drop mode the call always succeeds: the
  listed columns are gone, the others stay in their order with their cells, the row
  count is preserved, and the warning is printed exactly when a listed column is absent.
\<close>

theorem dropcols_transform_spec:
  "(action t = ''keep'' \<longrightarrow>
      ((\<exists>c \<in> set (column_list t). c \<notin> set (columns X))
         \<longrightarrow> dropcols_transform t X = Inl AssertionError)
      \<and> (set (column_list t) \<subseteq> set (columns X)
         \<longrightarrow> (\<exists>Y. dropcols_transform t X = Inr Y
                 \<and> columns Y = column_list t
                 \<and> nrows Y = nrows X
                 \<and> (\<forall>c \<in> set (column_list t). get_col Y c = get_col X c))))
   \<and> (action t = ''drop'' \<longrightarrow>
        (\<exists>Y. dropcols_transform t X = Inr Y
            \<and> columns Y = filter (\<lambda>c. c \<notin> set (column_list t)) (columns X)
            \<and> nrows Y = nrows X
            \<and> (\<forall>c. c \<notin> set (column_list t) \<longrightarrow> get_col Y c = get_col X c)
            \<and> (\<forall>c \<in> set (column_list t). get_col Y c = None)
            \<and> (dropcols_prints t X \<noteq> [] \<longleftrightarrow> (\<exists>c \<in> set (column_list t). c \<notin> set (columns X)))))"
proof (intro conjI impI)
  assume "action t = ''keep''" and "\<exists>c \<in> set (column_list t). c \<notin> set (columns X)"
  then show "dropcols_transform t X = Inl AssertionError"
    by (auto simp: dropcols_transform_def missing_columns_empty)
next
  assume keep: "action t = ''keep''" and sub: "set (column_list t) \<subseteq> set (columns X)"
  then have all: "filter (\<lambda>col. col \<in> set (columns X)) (column_list t) = column_list t"
    by (auto simp: filter_id_conv)
  from keep sub all have "dropcols_transform t X = Inr (select_cols X (column_list t))"
    by (simp add: dropcols_transform_def missing_columns_empty)
  moreover have "\<forall>c \<in> set (column_list t). get_col (select_cols X (column_list t)) c = get_col X c"
    using sub by (auto simp: get_col_select_cols)
  ultimately show "\<exists>Y. dropcols_transform t X = Inr Y
                 \<and> columns Y = column_list t
                 \<and> nrows Y = nrows X
                 \<and> (\<forall>c \<in> set (column_list t). get_col Y c = get_col X c)"
    using sub by (simp add: columns_select_cols nrows_select_cols)
next
  assume drop: "action t = ''drop''"
  let ?cs = "filter (\<lambda>col. col \<in> set (columns X)) (column_list t)"
  have run: "dropcols_transform t X = Inr (drop_cols X ?cs)"
    using drop by (simp add: dropcols_transform_def)
  have names: "columns (drop_cols X ?cs) = filter (\<lambda>c. c \<notin> set (column_list t)) (columns X)"
    by (auto simp: columns_drop_cols intro: filter_cong)
  have kept: "\<forall>c. c \<notin> set (column_list t) \<longrightarrow> get_col (drop_cols X ?cs) c = get_col X c"
    by (simp add: get_col_drop_cols)
  have gone: "\<forall>c \<in> set (column_list t). get_col (drop_cols X ?cs) c = None"
  proof
    fix c assume c: "c \<in> set (column_list t)"
    show "get_col (drop_cols X ?cs) c = None"
    proof (cases "c \<in> set (columns X)")
      case True
      with c show ?thesis by (simp add: get_col_drop_cols_dropped)
    next
      case False
      then have "get_col X c = None" by (simp add: get_col_None_columns)
      moreover from False have "c \<notin> set ?cs" by simp
      ultimately show ?thesis by (simp add: get_col_drop_cols)
    qed
  qed
  have warn: "dropcols_prints t X \<noteq> [] \<longleftrightarrow> (\<exists>c \<in> set (column_list t). c \<notin> set (columns X))"
    using drop by (auto simp: dropcols_prints_def missing_columns_empty)
  from run names kept gone warn
  show "\<exists>Y. dropcols_transform t X = Inr Y
            \<and> columns Y = filter (\<lambda>c. c \<notin> set (column_list t)) (columns X)
            \<and> nrows Y = nrows X
            \<and> (\<forall>c. c \<notin> set (column_list t) \<longrightarrow> get_col Y c = get_col X c)
            \<and> (\<forall>c \<in> set (column_list t). get_col Y c = None)
            \<and> (dropcols_prints t X \<noteq> [] \<longleftrightarrow> (\<exists>c \<in> set (column_list t). c \<notin> set (columns X)))"
    by (simp add: nrows_drop_cols)
qed

text \<open>
  The theorem on a two-column table: keep \<open>['A']\<close> then drop \<open>['A']\<close> leaves no column
  and two rows; keeping the absent \<open>'C'\<close> fails; dropping it only warns.
\<close>

theorem dropcols_transform_spec_witness:
  "dropcols_transform \<lparr>column_list = [''A''], action = ''keep''\<rparr>
      \<lparr>nrows = 2, cols = [(''A'', [Num 1, Num 2]), (''B'', [Num 3, Num 4])]\<rparr>
     = Inr \<lparr>nrows = 2, cols = [(''A'', [Num 1, Num 2])]\<rparr>
   \<and> dropcols_transform \<lparr>column_list = [''A''], action = ''drop''\<rparr>
      \<lparr>nrows = 2, cols = [(''A'', [Num 1, Num 2])]\<rparr>
     = Inr \<lparr>nrows = 2, cols = []\<rparr>
   \<and> dropcols_transform \<lparr>column_list = [''C''], action = ''keep''\<rparr>
      \<lparr>nrows = 2, cols = [(''A'', [Num 1, Num 2]), (''B'', [Num 3, Num 4])]\<rparr>
     = Inl AssertionError
   \<and> dropcols_transform \<lparr>column_list = [''C'', ''B''], action = ''drop''\<rparr>
      \<lparr>nrows = 2, cols = [(''A'', [Num 1, Num 2]), (''B'', [Num 3, Num 4])]\<rparr>
     = Inr \<lparr>nrows = 2, cols = [(''A'', [Num 1, Num 2])]\<rparr>
   \<and> dropcols_prints \<lparr>column_list = [''C'', ''B''], action = ''drop''\<rparr>
      \<lparr>nrows = 2, cols = [(''A'', [Num 1, Num 2]), (''B'', [Num 3, Num 4])]\<rparr>
     = [ColumnsToDropMissing [''C'']]"
  using dropcols_transform_spec [of "\<lparr>column_list = [''A''], action = ''keep''\<rparr>"
      "\<lparr>nrows = 2, cols = [(''A'', [Num 1, Num 2]), (''B'', [Num 3, Num 4])]\<rparr>"]
    dropcols_transform_spec [of "\<lparr>column_list = [''C'', ''B''], action = ''drop''\<rparr>"
      "\<lparr>nrows = 2, cols = [(''A'', [Num 1, Num 2]), (''B'', [Num 3, Num 4])]\<rparr>"]
  by (simp add: dropcols_transform_def dropcols_prints_def missing_columns_def select_cols_def
      drop_cols_def columns_def)

section \<open>Robust scaling\<close>

lemma sequence_map_Some:
  "(\<And>x. x \<in> set xs \<Longrightarrow> f x = Some (g x)) \<Longrightarrow> sequence (map f xs) = Some (map g xs)"
  by (induction xs) auto

lemma sequence_map_None:
  "x \<in> set xs \<Longrightarrow> f x = None \<Longrightarrow> sequence (map f xs) = None"
  by (induction xs) (auto split: option.splits)

lemma is_numeric_dtype_iff: "is_numeric_dtype c \<longleftrightarrow> (\<forall>x \<in> set c. \<forall>s. x \<noteq> Str s)"
  by (auto simp: is_numeric_dtype_def list_all_iff split: cell.splits)

lemma scale_cell_numeric:
  "\<forall>s. x \<noteq> Str s \<Longrightarrow>
     scale_cell m q x =
       Some (case x of Num v \<Rightarrow> (case lift2 (/) (lift2 (-) (Some v) m) q of None \<Rightarrow> NaN | Some r \<Rightarrow> Num r)
             | _ \<Rightarrow> x)"
  by (cases x) auto

lemma scale_column_numeric:
  assumes "is_numeric_dtype c"
  shows "sequence (map (scale_cell m q) c) =
     Some (map (\<lambda>x. case x of Num v \<Rightarrow> (case lift2 (/) (lift2 (-) (Some v) m) q of None \<Rightarrow> NaN | Some r \<Rightarrow> Num r)
             | _ \<Rightarrow> x) c)"
  using assms by (intro sequence_map_Some scale_cell_numeric) (simp add: is_numeric_dtype_iff)

lemma scale_column_string:
  assumes "\<not> is_numeric_dtype c"
  shows "sequence (map (scale_cell m q) c) = None"
proof -
  from assms obtain s where "Str s \<in> set c"
    by (auto simp: is_numeric_dtype_iff)
  then show ?thesis by (rule sequence_map_None) simp
qed

text \<open>
  C2 (amended). \<open>transform\<close> fails whenever \<open>fit\<close> has not run. For a fitted transformer
  whose IQR is not zero it fails when the target column is absent or holds a string, and
  succeeds otherwise. For a fitted transformer whose IQR is exactly zero it succeeds on
  every table that has the target column, and returns it unchanged.
\<close>

theorem robust_transform_outcome:
  "(iqr t = None \<or> med t = None \<longrightarrow> robust_transform t X = Inl AssertionError)
   \<and> (iqr t \<noteq> None \<and> med t \<noteq> None \<longrightarrow>
        (iqr t = Some (Some 0) \<and> get_col X (robust_target_column t) \<noteq> None
           \<longrightarrow> robust_transform t X = Inr X)
        \<and> (iqr t \<noteq> Some (Some 0) \<longrightarrow>
             (get_col X (robust_target_column t) = None \<longrightarrow> robust_transform t X = Inl KeyError)
             \<and> (\<forall>c. get_col X (robust_target_column t) = Some c \<longrightarrow>
                    (is_numeric_dtype c \<longrightarrow> (\<exists>Y. robust_transform t X = Inr Y))
                    \<and> (\<not> is_numeric_dtype c \<longrightarrow> robust_transform t X = Inl TypeError))))"
proof (intro conjI impI allI)
  assume "iqr t = None \<or> med t = None"
  then show "robust_transform t X = Inl AssertionError"
    by (auto simp: robust_transform_def)
next
  assume "iqr t \<noteq> None \<and> med t \<noteq> None"
    and "iqr t = Some (Some 0) \<and> get_col X (robust_target_column t) \<noteq> None"
  then show "robust_transform t X = Inr X"
    by (simp add: robust_transform_def wall_bound_def)
next
  assume f: "iqr t \<noteq> None \<and> med t \<noteq> None" and nz: "iqr t \<noteq> Some (Some 0)"
  then have go: "wall_bound (iqr t) \<noteq> Some 0"
    by (auto simp: wall_bound_def)
  {
    assume "get_col X (robust_target_column t) = None"
    with f go show "robust_transform t X = Inl KeyError"
      by (simp add: robust_transform_def)
  next
    fix c assume c: "get_col X (robust_target_column t) = Some c"
    {
      assume "is_numeric_dtype c"
      with f go c show "\<exists>Y. robust_transform t X = Inr Y"
        by (simp add: robust_transform_def scale_column_numeric)
    next
      assume "\<not> is_numeric_dtype c"
      with f go c show "robust_transform t X = Inl TypeError"
        by (simp add: robust_transform_def scale_column_string)
    }
  }
qed

text \<open>
  The theorem at an unfitted transformer, at one with IQR 0 on a table that has the target
  column, and at one with IQR 2 on tables without the column, with a string in it and
  with a number in it.
\<close>

theorem robust_transform_outcome_witness:
  "robust_transform \<lparr>robust_target_column = ''x'', iqr = None, med = None\<rparr>
      \<lparr>nrows = 1, cols = [(''x'', [Num 1])]\<rparr> = Inl AssertionError
   \<and> robust_transform \<lparr>robust_target_column = ''x'', iqr = Some (Some 0), med = Some (Some 5)\<rparr>
      \<lparr>nrows = 1, cols = [(''x'', [Num 1])]\<rparr> = Inr \<lparr>nrows = 1, cols = [(''x'', [Num 1])]\<rparr>
   \<and> robust_transform \<lparr>robust_target_column = ''x'', iqr = Some (Some 2), med = Some (Some 3)\<rparr>
      \<lparr>nrows = 1, cols = [(''y'', [Num 1])]\<rparr> = Inl KeyError
   \<and> robust_transform \<lparr>robust_target_column = ''x'', iqr = Some (Some 2), med = Some (Some 3)\<rparr>
      \<lparr>nrows = 1, cols = [(''x'', [Str ''a''])]\<rparr> = Inl TypeError
   \<and> robust_transform \<lparr>robust_target_column = ''x'', iqr = Some (Some 2), med = Some (Some 3)\<rparr>
      \<lparr>nrows = 1, cols = [(''x'', [Num 5])]\<rparr> = Inr \<lparr>nrows = 1, cols = [(''x'', [Num 1])]\<rparr>"
  using robust_transform_outcome [of "\<lparr>robust_target_column = ''x'', iqr = None, med = None\<rparr>"
      "\<lparr>nrows = 1, cols = [(''x'', [Num 1])]\<rparr>"]
    robust_transform_outcome [of "\<lparr>robust_target_column = ''x'', iqr = Some (Some 0), med = Some (Some 5)\<rparr>"
      "\<lparr>nrows = 1, cols = [(''x'', [Num 1])]\<rparr>"]
    robust_transform_outcome [of "\<lparr>robust_target_column = ''x'', iqr = Some (Some 2), med = Some (Some 3)\<rparr>"
      "\<lparr>nrows = 1, cols = [(''y'', [Num 1])]\<rparr>"]
    robust_transform_outcome [of "\<lparr>robust_target_column = ''x'', iqr = Some (Some 2), med = Some (Some 3)\<rparr>"
      "\<lparr>nrows = 1, cols = [(''x'', [Str ''a''])]\<rparr>"]
    robust_transform_outcome [of "\<lparr>robust_target_column = ''x'', iqr = Some (Some 2), med = Some (Some 3)\<rparr>"
      "\<lparr>nrows = 1, cols = [(''x'', [Num 5])]\<rparr>"]
  by (simp add: robust_transform_def wall_bound_def get_col_def set_col_def columns_def lift2_def)

text \<open>
  C2 as stated fails: a transformer fitted on the constant column \<open>[5, 5, 5]\<close> has IQR 0,
  and its \<open>transform\<close> succeeds on a table that has no column \<open>x\<close>; the column is read
  only when the IQR is not zero.
\<close>

theorem robust_transform_absent_column_counterexample:
  "robust_fit exact_quantile exact_median \<lparr>robust_target_column = ''x'', iqr = None, med = None\<rparr>
      \<lparr>nrows = 3, cols = [(''x'', [Num 5, Num 5, Num 5])]\<rparr>
     = Inr \<lparr>robust_target_column = ''x'', iqr = Some (Some 0), med = Some (Some 5)\<rparr>
   \<and> get_col \<lparr>nrows = 1, cols = [(''y'', [Num 1])]\<rparr> ''x'' = None
   \<and> robust_transform \<lparr>robust_target_column = ''x'', iqr = Some (Some 0), med = Some (Some 5)\<rparr>
      \<lparr>nrows = 1, cols = [(''y'', [Num 1])]\<rparr>
     = Inr \<lparr>nrows = 1, cols = [(''y'', [Num 1])]\<rparr>"
  by (simp add: robust_fit_def robust_transform_def wall_bound_def get_col_def
      is_numeric_dtype_def exact_quantile_def exact_median_def quantile_def median_def
      lift2_def Let_def)

text \<open>
  C7. Let \<open>fit\<close> succeed on a training table, with \<open>series_quantile\<close> and \<open>series_median\<close>
  pandas' quantile and median. The transformer then holds as \<open>med\<close> the median of the
  training column and as \<open>iqr\<close> the difference of its third and first quartile, as pandas
  reports them. When the stored IQR is zero, \<open>transform\<close> returns the table unchanged.
  When the stored median \<open>m\<close> and IQR \<open>q\<close> are numbers and \<open>q\<close> is not zero, \<open>transform\<close>
  replaces every number \<open>v\<close> of the target column by \<open>(v - m) / q\<close>, so a cell equal to the
  median becomes 0; missing cells stay missing and the other columns are unchanged.
\<close>

theorem robust_fit_transform_spec:
  assumes "robust_fit series_quantile series_median tn T = Inr t"
  shows "\<exists>tc. get_col T (robust_target_column tn) = Some tc
           \<and> robust_target_column t = robust_target_column tn
           \<and> med t = Some (series_median tc)
           \<and> iqr t = Some (lift2 (-) (series_quantile 0.75 tc) (series_quantile 0.25 tc))
           \<and> (iqr t = Some (Some 0) \<longrightarrow> robust_transform t X = Inr X)
           \<and> (\<forall>m q c. med t = Some (Some m) \<and> iqr t = Some (Some q) \<and> q \<noteq> 0
                  \<and> get_col X (robust_target_column t) = Some c \<and> is_numeric_dtype c
                \<longrightarrow> (\<exists>Y. robust_transform t X = Inr Y
                        \<and> get_col Y (robust_target_column t)
                            = Some (map (\<lambda>x. case x of Num v \<Rightarrow> Num ((v - m) / q) | _ \<Rightarrow> x) c)
                        \<and> (\<forall>i < length c. c ! i = Num m \<longrightarrow>
                              map (\<lambda>x. case x of Num v \<Rightarrow> Num ((v - m) / q) | _ \<Rightarrow> x) c ! i = Num 0)
                        \<and> (\<forall>k. k \<noteq> robust_target_column t \<longrightarrow> get_col Y k = get_col X k)
                        \<and> columns Y = columns X \<and> nrows Y = nrows X))"
proof -
  from assms obtain tc where tc: "get_col T (robust_target_column tn) = Some tc"
    and t: "t = tn\<lparr>iqr := Some (lift2 (-) (series_quantile 0.75 tc) (series_quantile 0.25 tc)),
                   med := Some (series_median tc)\<rparr>"
    by (auto simp: robust_fit_def Let_def split: option.splits if_splits)
  have zero: "robust_transform t X = Inr X" if "iqr t = Some (Some 0)"
    using that t by (simp add: robust_transform_def wall_bound_def)
  have scale: "\<exists>Y. robust_transform t X = Inr Y
                 \<and> get_col Y (robust_target_column t)
                     = Some (map (\<lambda>x. case x of Num v \<Rightarrow> Num ((v - m) / q) | _ \<Rightarrow> x) c)
                 \<and> (\<forall>i < length c. c ! i = Num m \<longrightarrow>
                       map (\<lambda>x. case x of Num v \<Rightarrow> Num ((v - m) / q) | _ \<Rightarrow> x) c ! i = Num 0)
                 \<and> (\<forall>k. k \<noteq> robust_target_column t \<longrightarrow> get_col Y k = get_col X k)
                 \<and> columns Y = columns X \<and> nrows Y = nrows X"
    if m: "med t = Some (Some m)" and q: "iqr t = Some (Some q)" and nz: "q \<noteq> 0"
      and c: "get_col X (robust_target_column t) = Some c" and num: "is_numeric_dtype c"
    for m q c
  proof -
    let ?c' = "map (\<lambda>x. case x of Num v \<Rightarrow> Num ((v - m) / q) | _ \<Rightarrow> x) c"
    have "map (\<lambda>x. case x of
                      Num v \<Rightarrow> (case lift2 (/) (lift2 (-) (Some v) (Some m)) (Some q) of
                                 None \<Rightarrow> NaN | Some r \<Rightarrow> Num r)
                    | _ \<Rightarrow> x) c = ?c'"
      by (rule map_cong) (auto simp: lift2_def split: cell.splits)
    with num have "sequence (map (scale_cell (Some m) (Some q)) c) = Some ?c'"
      by (simp add: scale_column_numeric)
    with m q nz c have run: "robust_transform t X = Inr (set_col X (robust_target_column t) ?c')"
      by (simp add: robust_transform_def wall_bound_def)
    show ?thesis
      using c by (simp add: run get_col_set_col_same get_col_set_col_other
          columns_set_col_present get_col_Some_columns nrows_set_col)
  qed
  from tc t zero scale show ?thesis by auto
qed

text \<open>
  The theorem for a transformer fitted on the unsorted column \<open>[4, 1, 3, 2]\<close>, whose
  quartiles are 1.75 and 3.25, IQR 1.5 and median 2.5 (float64 is exact on them), applied
  to \<open>[2.5, 4, nan, 1]\<close>; and for one fitted on the constant column \<open>[5, 5, 5]\<close>, IQR 0.
\<close>

theorem robust_fit_transform_spec_witness:
  "robust_fit exact_quantile exact_median \<lparr>robust_target_column = ''x'', iqr = None, med = None\<rparr>
      \<lparr>nrows = 4, cols = [(''x'', [Num 4, Num 1, Num 3, Num 2])]\<rparr>
     = Inr \<lparr>robust_target_column = ''x'', iqr = Some (Some (3 / 2)), med = Some (Some (5 / 2))\<rparr>
   \<and> exact_quantile 0.25 [Num 4, Num 1, Num 3, Num 2] = Some (7 / 4)
   \<and> exact_quantile 0.75 [Num 4, Num 1, Num 3, Num 2] = Some (13 / 4)
   \<and> exact_median [Num 4, Num 1, Num 3, Num 2] = Some (5 / 2)
   \<and> robust_transform \<lparr>robust_target_column = ''x'', iqr = Some (Some (3 / 2)), med = Some (Some (5 / 2))\<rparr>
      \<lparr>nrows = 4, cols = [(''x'', [Num (5 / 2), Num 4, NaN, Num 1])]\<rparr>
     = Inr \<lparr>nrows = 4, cols = [(''x'', [Num 0, Num 1, NaN, Num (- 1)])]\<rparr>
   \<and> robust_fit exact_quantile exact_median \<lparr>robust_target_column = ''x'', iqr = None, med = None\<rparr>
      \<lparr>nrows = 3, cols = [(''x'', [Num 5, Num 5, Num 5])]\<rparr>
     = Inr \<lparr>robust_target_column = ''x'', iqr = Some (Some 0), med = Some (Some 5)\<rparr>
   \<and> robust_transform \<lparr>robust_target_column = ''x'', iqr = Some (Some 0), med = Some (Some 5)\<rparr>
      \<lparr>nrows = 4, cols = [(''x'', [Num (5 / 2), Num 4, NaN, Num 1])]\<rparr>
     = Inr \<lparr>nrows = 4, cols = [(''x'', [Num (5 / 2), Num 4, NaN, Num 1])]\<rparr>"
proof -
  let ?X = "\<lparr>nrows = 4, cols = [(''x'', [Num (5 / 2), Num 4, NaN, Num 1])]\<rparr>"
  have q1: "exact_quantile 0.25 [Num 4, Num 1, Num 3, Num 2] = Some (7 / 4)"
    by (simp add: exact_quantile_def quantile_def Let_def)
  have q3: "exact_quantile 0.75 [Num 4, Num 1, Num 3, Num 2] = Some (13 / 4)"
    by (simp add: exact_quantile_def quantile_def Let_def)
  have md: "exact_median [Num 4, Num 1, Num 3, Num 2] = Some (5 / 2)"
    by (simp add: exact_median_def median_def Let_def)
  have fit1: "robust_fit exact_quantile exact_median
      \<lparr>robust_target_column = ''x'', iqr = None, med = None\<rparr>
      \<lparr>nrows = 4, cols = [(''x'', [Num 4, Num 1, Num 3, Num 2])]\<rparr>
     = Inr \<lparr>robust_target_column = ''x'', iqr = Some (Some (3 / 2)), med = Some (Some (5 / 2))\<rparr>"
    by (simp add: robust_fit_def get_col_def is_numeric_dtype_def exact_quantile_def
        exact_median_def quantile_def median_def lift2_def Let_def)
  have fit2: "robust_fit exact_quantile exact_median
      \<lparr>robust_target_column = ''x'', iqr = None, med = None\<rparr>
      \<lparr>nrows = 3, cols = [(''x'', [Num 5, Num 5, Num 5])]\<rparr>
     = Inr \<lparr>robust_target_column = ''x'', iqr = Some (Some 0), med = Some (Some 5)\<rparr>"
    by (simp add: robust_fit_def get_col_def is_numeric_dtype_def exact_quantile_def
        exact_median_def quantile_def median_def lift2_def Let_def)
  have col: "get_col ?X ''x'' = Some [Num (5 / 2), Num 4, NaN, Num 1]"
    by (simp add: get_col_def)
  have num: "is_numeric_dtype [Num (5 / 2), Num 4, NaN, Num 1]"
    by (simp add: is_numeric_dtype_def)
  from robust_fit_transform_spec [OF fit1, of ?X] col num
  have run1: "robust_transform \<lparr>robust_target_column = ''x'', iqr = Some (Some (3 / 2)), med = Some (Some (5 / 2))\<rparr> ?X
     = Inr \<lparr>nrows = 4, cols = [(''x'', [Num 0, Num 1, NaN, Num (- 1)])]\<rparr>"
    by (simp add: robust_transform_def wall_bound_def get_col_def set_col_def columns_def lift2_def
        exact_quantile_def exact_median_def quantile_def median_def Let_def)
  from robust_fit_transform_spec [OF fit2, of ?X]
  have run2: "robust_transform \<lparr>robust_target_column = ''x'', iqr = Some (Some 0), med = Some (Some 5)\<rparr> ?X
     = Inr ?X"
    by (simp add: robust_transform_def wall_bound_def)
  from fit1 q1 q3 md run1 fit2 run2 show ?thesis by simp
qed

section \<open>Clipping\<close>

lemma set_col_set_col:
  assumes "c \<in> set (columns X)"
  shows "set_col (set_col X c v) c w = set_col X c w"
proof -
  have "map (\<lambda>(n, x). if n = c then (n, w) else (n, x))
          (map (\<lambda>(n, x). if n = c then (n, v) else (n, x)) xs)
        = map (\<lambda>(n, x). if n = c then (n, w) else (n, x)) xs" for xs :: "(string \<times> column) list"
    by (induction xs) auto
  moreover have "c \<in> set (columns (set_col X c v))"
    using assms by (simp add: columns_set_col_present)
  ultimately show ?thesis
    using assms by (simp add: set_col_def [of "set_col X c v"]) (simp add: set_col_def)
qed

lemma clip_numeric:
  assumes "is_numeric_dtype c" and "lo \<le> hi"
  shows "clip (Some lo) (Some hi) c =
           Some (map (\<lambda>x. case x of Num v \<Rightarrow> Num (if v \<le> hi then (if lo \<le> v then v else lo) else hi)
                          | _ \<Rightarrow> x) c)"
proof -
  have "clip_cell (Some lo) (Some hi) x =
          Some (case x of Num v \<Rightarrow> Num (if v \<le> hi then (if lo \<le> v then v else lo) else hi) | _ \<Rightarrow> x)"
    if "x \<in> set c" for x
    by (cases x) (use that assms(1) in \<open>auto simp: is_numeric_dtype_iff clip_num_def\<close>)
  then have "sequence (map (clip_cell (Some lo) (Some hi)) c) =
          Some (map (\<lambda>x. case x of Num v \<Rightarrow> Num (if v \<le> hi then (if lo \<le> v then v else lo) else hi)
                          | _ \<Rightarrow> x) c)"
    by (rule sequence_map_Some)
  with assms(2) show ?thesis
    by (simp add: clip_def clip_bounds_def min_def max_def)
qed

lemma clip_column_spec:
  assumes "is_numeric_dtype c" and "lo \<le> hi"
  shows "\<exists>c'. clip (Some lo) (Some hi) c = Some c'
           \<and> length c' = length c
           \<and> is_numeric_dtype c'
           \<and> (\<forall>i < length c.
                 (c ! i = NaN \<longrightarrow> c' ! i = NaN)
                 \<and> (\<forall>v. c ! i = Num v \<longrightarrow>
                        (\<exists>w. c' ! i = Num w \<and> lo \<le> w \<and> w \<le> hi \<and> (lo \<le> v \<and> v \<le> hi \<longrightarrow> w = v))))
           \<and> clip (Some lo) (Some hi) c' = Some c'"
proof -
  let ?f = "\<lambda>x. case x of Num v \<Rightarrow> Num (if v \<le> hi then (if lo \<le> v then v else lo) else hi) | _ \<Rightarrow> x"
  have run: "clip (Some lo) (Some hi) c = Some (map ?f c)"
    using assms by (rule clip_numeric)
  have num: "is_numeric_dtype (map ?f c)"
    using assms(1) by (auto simp: is_numeric_dtype_iff split: cell.splits)
  have cells: "\<forall>i < length c.
                 (c ! i = NaN \<longrightarrow> map ?f c ! i = NaN)
                 \<and> (\<forall>v. c ! i = Num v \<longrightarrow>
                        (\<exists>w. map ?f c ! i = Num w \<and> lo \<le> w \<and> w \<le> hi \<and> (lo \<le> v \<and> v \<le> hi \<longrightarrow> w = v)))"
    using assms(2) by auto
  have "map ?f (map ?f c) = map ?f c"
    using assms(2) by (auto split: cell.splits)
  with clip_numeric [OF num assms(2)] have again: "clip (Some lo) (Some hi) (map ?f c) = Some (map ?f c)"
    by simp
  from run num cells again show ?thesis by simp
qed

lemma interpolation_between:
  fixes s :: "real list"
  assumes "sorted s" and "k < length s" and "0 \<le> f" and "f \<le> 1"
  shows "s ! k \<le> s ! k + f * (s ! min (k + 1) (length s - 1) - s ! k)"
    and "s ! k + f * (s ! min (k + 1) (length s - 1) - s ! k) \<le> s ! min (k + 1) (length s - 1)"
proof -
  let ?h = "min (k + 1) (length s - 1)"
  have "k \<le> ?h" and "?h < length s" using assms(2) by auto
  with assms(1) have d: "0 \<le> s ! ?h - s ! k"
    by (simp add: sorted_nth_mono)
  with assms(3) show "s ! k \<le> s ! k + f * (s ! ?h - s ! k)" by simp
  from d assms(4) have "f * (s ! ?h - s ! k) \<le> 1 * (s ! ?h - s ! k)"
    by (intro mult_right_mono) auto
  then show "s ! k + f * (s ! ?h - s ! k) \<le> s ! ?h" by simp
qed

lemma quantile_mono:
  assumes "quantile 0.25 xs = Some a" and "quantile 0.75 xs = Some b"
  shows "a \<le> b"
proof -
  from assms(1) have ne: "xs \<noteq> []" by (auto simp: quantile_def split: if_splits)
  define s where "s = sort xs"
  define N where "N = length s - 1"
  define p where "p = 0.25 * real N"
  define r where "r = 0.75 * real N"
  define k where "k = nat \<lfloor>p\<rfloor>"
  define l where "l = nat \<lfloor>r\<rfloor>"
  have srt: "sorted s" by (simp add: s_def)
  have len: "length s = N + 1" using ne by (cases xs) (auto simp: N_def s_def)
  have p0: "0 \<le> p" and r0: "0 \<le> r" and pr: "p \<le> r" by (simp_all add: p_def r_def)
  have rN: "r \<le> real N" by (simp add: r_def)
  have kp: "real k \<le> p" and pk: "p < real k + 1"
    using p0 by (simp_all add: k_def)
  have lr: "real l \<le> r" and rl: "r < real l + 1"
    using r0 by (simp_all add: l_def)
  have kl: "k \<le> l" using pr p0 by (simp add: k_def l_def nat_mono floor_mono)
  have lN: "l \<le> N" using lr rN by linarith
  have a: "a = s ! k + (p - real k) * (s ! min (k + 1) (length s - 1) - s ! k)"
    using assms(1) ne by (simp add: quantile_def Let_def s_def N_def p_def k_def)
  have b: "b = s ! l + (r - real l) * (s ! min (l + 1) (length s - 1) - s ! l)"
    using assms(2) ne by (simp add: quantile_def Let_def s_def N_def r_def l_def)
  show ?thesis
  proof (cases "k = l")
    case True
    have "0 \<le> s ! min (l + 1) (length s - 1) - s ! l"
      using srt lN len by (simp add: sorted_nth_mono)
    then have "(p - real l) * (s ! min (l + 1) (length s - 1) - s ! l)
               \<le> (r - real l) * (s ! min (l + 1) (length s - 1) - s ! l)"
      using pr by (intro mult_right_mono) auto
    with a b True show ?thesis by simp
  next
    case False
    with kl have k1: "k + 1 \<le> l" by simp
    have "a \<le> s ! min (k + 1) (length s - 1)"
      unfolding a using srt kl lN len kp pk
      by (intro interpolation_between(2)) auto
    also have "min (k + 1) (length s - 1) = k + 1" using k1 lN len by simp
    also have "s ! (k + 1) \<le> s ! l"
      using srt k1 lN len by (simp add: sorted_nth_mono)
    also have "s ! l \<le> b"
      unfolding b using srt lN len lr rl
      by (intro interpolation_between(1)) auto
    finally show ?thesis .
  qed
qed

lemma std_of_nonneg: "std_of xs = Some sd \<Longrightarrow> 0 \<le> sd"
  by (auto simp: std_of_def Let_def split: if_splits intro!: divide_nonneg_nonneg sum_list_nonneg)

lemma sigma3_fit_walls_ordered:
  assumes "sigma3_fit t0 T = Inr t" and "low_wall t = Some (Some lo)" and "high_wall t = Some (Some hi)"
  shows "lo \<le> hi"
proof -
  from assms obtain c m sd where "mean_of (numeric_values c) = Some m"
    and sd: "std_of (numeric_values c) = Some sd"
    and "lo = m - 3 * sd" and "hi = m + 3 * sd"
    by (auto simp: sigma3_fit_def Let_def lift2_def split: option.splits if_splits)
  with std_of_nonneg [OF sd] show ?thesis by simp
qed

lemma tukey_fit_walls_ordered:
  assumes "tukey_fit t0 T = Inr t"
    and "(if fence t = ''inner'' then (inner_low t, inner_high t) else (outer_low t, outer_high t))
           = (Some (Some lo), Some (Some hi))"
  shows "lo \<le> hi"
proof -
  from assms obtain c q1 q3 where q1: "quantile 0.25 (numeric_values c) = Some q1"
    and q3: "quantile 0.75 (numeric_values c) = Some q3"
    and "(lo = q1 - 1.5 * (q3 - q1) \<and> hi = q3 + 1.5 * (q3 - q1))
         \<or> (lo = q1 - 3.0 * (q3 - q1) \<and> hi = q3 + 3.0 * (q3 - q1))"
    by (auto simp: tukey_fit_def Let_def lift2_def split: option.splits if_splits)
  with quantile_mono [OF q1 q3] show ?thesis by (elim disjE conjE) (simp_all add: field_simps)
qed


text \<open>
  C6 (amended). For a fitted Sigma3 or Tukey transformer whose selected bounds \<open>low\<close> and
  \<open>high\<close> are numbers, and every table whose target column is numeric, \<open>transform\<close>
  succeeds; every number of the target column ends within \<open>[low, high]\<close>, a number already
  inside is unchanged, and a missing cell stays missing, so it is not brought into the
  interval; the other columns are unchanged; and transforming the result again gives the
  same table.
\<close>

theorem clip_transforms_spec:
  "(sigma3_fit tn T = Inr t \<and> low_wall t = Some (Some lo) \<and> high_wall t = Some (Some hi)
      \<and> get_col X (sigma3_target_column t) = Some c \<and> is_numeric_dtype c
    \<longrightarrow> (\<exists>Y c'. sigma3_transform t X = Inr Y
           \<and> get_col Y (sigma3_target_column t) = Some c' \<and> length c' = length c
           \<and> (\<forall>i < length c.
                 (c ! i = NaN \<longrightarrow> c' ! i = NaN)
                 \<and> (\<forall>v. c ! i = Num v \<longrightarrow>
                        (\<exists>w. c' ! i = Num w \<and> lo \<le> w \<and> w \<le> hi \<and> (lo \<le> v \<and> v \<le> hi \<longrightarrow> w = v))))
           \<and> (\<forall>k. k \<noteq> sigma3_target_column t \<longrightarrow> get_col Y k = get_col X k)
           \<and> sigma3_transform t Y = Inr Y))
   \<and> (tukey_fit un T = Inr u
      \<and> (if fence u = ''inner'' then (inner_low u, inner_high u) else (outer_low u, outer_high u))
          = (Some (Some lo), Some (Some hi))
      \<and> get_col X (tukey_target_column u) = Some c \<and> is_numeric_dtype c
    \<longrightarrow> (\<exists>Y c'. tukey_transform u X = Inr Y
           \<and> get_col Y (tukey_target_column u) = Some c' \<and> length c' = length c
           \<and> (\<forall>i < length c.
                 (c ! i = NaN \<longrightarrow> c' ! i = NaN)
                 \<and> (\<forall>v. c ! i = Num v \<longrightarrow>
                        (\<exists>w. c' ! i = Num w \<and> lo \<le> w \<and> w \<le> hi \<and> (lo \<le> v \<and> v \<le> hi \<longrightarrow> w = v))))
           \<and> (\<forall>k. k \<noteq> tukey_target_column u \<longrightarrow> get_col Y k = get_col X k)
           \<and> tukey_transform u Y = Inr Y))"
proof (intro conjI impI; elim conjE)
  assume fit: "sigma3_fit tn T = Inr t"
    and lo: "low_wall t = Some (Some lo)" and hi: "high_wall t = Some (Some hi)"
    and c: "get_col X (sigma3_target_column t) = Some c" and num: "is_numeric_dtype c"
  from fit lo hi have "lo \<le> hi" by (rule sigma3_fit_walls_ordered)
  from clip_column_spec [OF num this] obtain c' where run: "clip (Some lo) (Some hi) c = Some c'"
    and len: "length c' = length c"
    and cells: "\<forall>i < length c.
                 (c ! i = NaN \<longrightarrow> c' ! i = NaN)
                 \<and> (\<forall>v. c ! i = Num v \<longrightarrow>
                        (\<exists>w. c' ! i = Num w \<and> lo \<le> w \<and> w \<le> hi \<and> (lo \<le> v \<and> v \<le> hi \<longrightarrow> w = v)))"
    and again: "clip (Some lo) (Some hi) c' = Some c'"
    by blast
  let ?Y = "set_col X (sigma3_target_column t) c'"
  from c have present: "sigma3_target_column t \<in> set (columns X)"
    by (rule get_col_Some_columns)
  have 1: "sigma3_transform t X = Inr ?Y"
    using lo hi c run by (simp add: sigma3_transform_def wall_bound_def)
  have 2: "sigma3_transform t ?Y = Inr ?Y"
    using lo hi again present
    by (simp add: sigma3_transform_def wall_bound_def get_col_set_col_same set_col_set_col)
  from 1 2 len cells
  show "\<exists>Y c'. sigma3_transform t X = Inr Y
           \<and> get_col Y (sigma3_target_column t) = Some c' \<and> length c' = length c
           \<and> (\<forall>i < length c.
                 (c ! i = NaN \<longrightarrow> c' ! i = NaN)
                 \<and> (\<forall>v. c ! i = Num v \<longrightarrow>
                        (\<exists>w. c' ! i = Num w \<and> lo \<le> w \<and> w \<le> hi \<and> (lo \<le> v \<and> v \<le> hi \<longrightarrow> w = v))))
           \<and> (\<forall>k. k \<noteq> sigma3_target_column t \<longrightarrow> get_col Y k = get_col X k)
           \<and> sigma3_transform t Y = Inr Y"
    by (simp add: get_col_set_col_same get_col_set_col_other)
next
  assume fit: "tukey_fit un T = Inr u"
    and sel: "(if fence u = ''inner'' then (inner_low u, inner_high u) else (outer_low u, outer_high u))
          = (Some (Some lo), Some (Some hi))"
    and c: "get_col X (tukey_target_column u) = Some c" and num: "is_numeric_dtype c"
  from fit sel have "lo \<le> hi" by (rule tukey_fit_walls_ordered)
  from clip_column_spec [OF num this] obtain c' where run: "clip (Some lo) (Some hi) c = Some c'"
    and len: "length c' = length c"
    and cells: "\<forall>i < length c.
                 (c ! i = NaN \<longrightarrow> c' ! i = NaN)
                 \<and> (\<forall>v. c ! i = Num v \<longrightarrow>
                        (\<exists>w. c' ! i = Num w \<and> lo \<le> w \<and> w \<le> hi \<and> (lo \<le> v \<and> v \<le> hi \<longrightarrow> w = v)))"
    and again: "clip (Some lo) (Some hi) c' = Some c'"
    by blast
  from fit have fitted: "inner_low u \<noteq> None \<and> inner_high u \<noteq> None"
    by (auto simp: tukey_fit_def Let_def split: option.splits if_splits)
  let ?Y = "set_col X (tukey_target_column u) c'"
  from c have present: "tukey_target_column u \<in> set (columns X)"
    by (rule get_col_Some_columns)
  have 1: "tukey_transform u X = Inr ?Y"
    using fitted sel c run by (auto simp: tukey_transform_def wall_bound_def split: if_splits)
  have 2: "tukey_transform u ?Y = Inr ?Y"
    using fitted sel again present
    by (auto simp: tukey_transform_def wall_bound_def get_col_set_col_same set_col_set_col
        split: if_splits)
  from 1 2 len cells
  show "\<exists>Y c'. tukey_transform u X = Inr Y
           \<and> get_col Y (tukey_target_column u) = Some c' \<and> length c' = length c
           \<and> (\<forall>i < length c.
                 (c ! i = NaN \<longrightarrow> c' ! i = NaN)
                 \<and> (\<forall>v. c ! i = Num v \<longrightarrow>
                        (\<exists>w. c' ! i = Num w \<and> lo \<le> w \<and> w \<le> hi \<and> (lo \<le> v \<and> v \<le> hi \<longrightarrow> w = v))))
           \<and> (\<forall>k. k \<noteq> tukey_target_column u \<longrightarrow> get_col Y k = get_col X k)
           \<and> tukey_transform u Y = Inr Y"
    by (simp add: get_col_set_col_same get_col_set_col_other)
qed

lemma sqrt_nine: "sqrt 9 = 3"
  using real_sqrt_abs [of 3] by simp

text \<open>
  The theorem for a Sigma3 transformer fitted on \<open>[0, 3, 6]\<close> (walls -6 and 12) and a Tukey
  transformer with the inner fence fitted on \<open>[1, 2, 3, 4, 5]\<close> (fences -1 and 7), both
  applied to the column \<open>[nan, 20, 5]\<close>.
\<close>

theorem clip_transforms_spec_witness:
  "sigma3_fit \<lparr>sigma3_target_column = ''x'', high_wall = None, low_wall = None\<rparr>
      \<lparr>nrows = 3, cols = [(''x'', [Num 0, Num 3, Num 6])]\<rparr>
     = Inr \<lparr>sigma3_target_column = ''x'', high_wall = Some (Some 12), low_wall = Some (Some (- 6))\<rparr>
   \<and> is_numeric_dtype [NaN, Num 20, Num 5]
   \<and> sigma3_transform \<lparr>sigma3_target_column = ''x'', high_wall = Some (Some 12), low_wall = Some (Some (- 6))\<rparr>
        \<lparr>nrows = 3, cols = [(''x'', [NaN, Num 20, Num 5])]\<rparr>
       = Inr \<lparr>nrows = 3, cols = [(''x'', [NaN, Num 12, Num 5])]\<rparr>
   \<and> sigma3_transform \<lparr>sigma3_target_column = ''x'', high_wall = Some (Some 12), low_wall = Some (Some (- 6))\<rparr>
        \<lparr>nrows = 3, cols = [(''x'', [NaN, Num 12, Num 5])]\<rparr>
       = Inr \<lparr>nrows = 3, cols = [(''x'', [NaN, Num 12, Num 5])]\<rparr>
   \<and> tukey_fit \<lparr>tukey_target_column = ''x'', fence = ''inner'', inner_low = None, outer_low = None,
          inner_high = None, outer_high = None\<rparr>
        \<lparr>nrows = 5, cols = [(''x'', [Num 1, Num 2, Num 3, Num 4, Num 5])]\<rparr>
       = Inr \<lparr>tukey_target_column = ''x'', fence = ''inner'', inner_low = Some (Some (- 1)),
          outer_low = Some (Some (- 4)), inner_high = Some (Some 7), outer_high = Some (Some 10)\<rparr>
   \<and> tukey_transform \<lparr>tukey_target_column = ''x'', fence = ''inner'', inner_low = Some (Some (- 1)),
          outer_low = Some (Some (- 4)), inner_high = Some (Some 7), outer_high = Some (Some 10)\<rparr>
        \<lparr>nrows = 3, cols = [(''x'', [NaN, Num 20, Num 5])]\<rparr>
       = Inr \<lparr>nrows = 3, cols = [(''x'', [NaN, Num 7, Num 5])]\<rparr>
   \<and> tukey_transform \<lparr>tukey_target_column = ''x'', fence = ''inner'', inner_low = Some (Some (- 1)),
          outer_low = Some (Some (- 4)), inner_high = Some (Some 7), outer_high = Some (Some 10)\<rparr>
        \<lparr>nrows = 3, cols = [(''x'', [NaN, Num 7, Num 5])]\<rparr>
       = Inr \<lparr>nrows = 3, cols = [(''x'', [NaN, Num 7, Num 5])]\<rparr>"
proof -
  let ?t = "\<lparr>sigma3_target_column = ''x'', high_wall = Some (Some 12), low_wall = Some (Some (- 6))\<rparr>"
  let ?u = "\<lparr>tukey_target_column = ''x'', fence = ''inner'', inner_low = Some (Some (- 1)),
          outer_low = Some (Some (- 4)), inner_high = Some (Some 7), outer_high = Some (Some 10)\<rparr>"
  let ?X = "\<lparr>nrows = 3, cols = [(''x'', [NaN, Num 20, Num 5])]\<rparr>"
  have fit1: "sigma3_fit \<lparr>sigma3_target_column = ''x'', high_wall = None, low_wall = None\<rparr>
      \<lparr>nrows = 3, cols = [(''x'', [Num 0, Num 3, Num 6])]\<rparr> = Inr ?t"
    by (simp add: sigma3_fit_def get_col_def is_numeric_dtype_def std_of_def mean_of_def
        lift2_def Let_def power2_eq_square sqrt_nine)
  have fit2: "tukey_fit \<lparr>tukey_target_column = ''x'', fence = ''inner'', inner_low = None,
          outer_low = None, inner_high = None, outer_high = None\<rparr>
        \<lparr>nrows = 5, cols = [(''x'', [Num 1, Num 2, Num 3, Num 4, Num 5])]\<rparr> = Inr ?u"
    by (simp add: tukey_fit_def get_col_def is_numeric_dtype_def quantile_def lift2_def Let_def)
  have num: "is_numeric_dtype [NaN, Num 20, Num 5]"
    by (simp add: is_numeric_dtype_def)
  have col: "get_col ?X ''x'' = Some [NaN, Num 20, Num 5]"
    by (simp add: get_col_def)
  have run1: "sigma3_transform ?t ?X = Inr \<lparr>nrows = 3, cols = [(''x'', [NaN, Num 12, Num 5])]\<rparr>"
    by (simp add: sigma3_transform_def wall_bound_def get_col_def set_col_def columns_def
        clip_def clip_bounds_def clip_num_def)
  have run2: "tukey_transform ?u ?X = Inr \<lparr>nrows = 3, cols = [(''x'', [NaN, Num 7, Num 5])]\<rparr>"
    by (simp add: tukey_transform_def wall_bound_def get_col_def set_col_def columns_def
        clip_def clip_bounds_def clip_num_def)
  from clip_transforms_spec [where tn = "\<lparr>sigma3_target_column = ''x'', high_wall = None, low_wall = None\<rparr>"
        and T = "\<lparr>nrows = 3, cols = [(''x'', [Num 0, Num 3, Num 6])]\<rparr>"
        and t = ?t and lo = "- 6" and hi = 12 and X = ?X and c = "[NaN, Num 20, Num 5]",
      THEN conjunct1]
    fit1 num col run1
  have again1: "sigma3_transform ?t \<lparr>nrows = 3, cols = [(''x'', [NaN, Num 12, Num 5])]\<rparr>
       = Inr \<lparr>nrows = 3, cols = [(''x'', [NaN, Num 12, Num 5])]\<rparr>"
    by auto
  from clip_transforms_spec [where un = "\<lparr>tukey_target_column = ''x'', fence = ''inner'', inner_low = None,
          outer_low = None, inner_high = None, outer_high = None\<rparr>"
        and T = "\<lparr>nrows = 5, cols = [(''x'', [Num 1, Num 2, Num 3, Num 4, Num 5])]\<rparr>"
        and u = ?u and lo = "- 1" and hi = 7 and X = ?X and c = "[NaN, Num 20, Num 5]",
      THEN conjunct2]
    fit2 num col run2
  have again2: "tukey_transform ?u \<lparr>nrows = 3, cols = [(''x'', [NaN, Num 7, Num 5])]\<rparr>
       = Inr \<lparr>nrows = 3, cols = [(''x'', [NaN, Num 7, Num 5])]\<rparr>"
    by auto
  from fit1 fit2 num run1 run2 again1 again2 show ?thesis by simp
qed

text \<open>
  C6 as stated fails on a missing cell: the Sigma3 transformer fitted on \<open>[0, 3, 6]\<close> has the
  walls -6 and 12, and the numeric column \<open>[nan, 20]\<close> becomes \<open>[nan, 12]\<close>, whose first
  cell is no number of the interval.
\<close>

theorem clip_missing_cell_counterexample:
  "sigma3_fit \<lparr>sigma3_target_column = ''x'', high_wall = None, low_wall = None\<rparr>
      \<lparr>nrows = 3, cols = [(''x'', [Num 0, Num 3, Num 6])]\<rparr>
     = Inr \<lparr>sigma3_target_column = ''x'', high_wall = Some (Some 12), low_wall = Some (Some (- 6))\<rparr>
   \<and> is_numeric_dtype [NaN, Num 20]
   \<and> sigma3_transform \<lparr>sigma3_target_column = ''x'', high_wall = Some (Some 12), low_wall = Some (Some (- 6))\<rparr>
        \<lparr>nrows = 2, cols = [(''x'', [NaN, Num 20])]\<rparr>
       = Inr \<lparr>nrows = 2, cols = [(''x'', [NaN, Num 12])]\<rparr>
   \<and> NaN \<notin> Num ` {- 6 .. 12}"
  by (auto simp: sigma3_fit_def sigma3_transform_def wall_bound_def get_col_def set_col_def
      columns_def is_numeric_dtype_def std_of_def mean_of_def lift2_def Let_def power2_eq_square
      sqrt_nine clip_def clip_bounds_def clip_num_def)

section \<open>One-hot encoding\<close>

lemma set_insort_cell: "set (insort_cell v us) = insert v (set us)"
  by (induction us) auto

lemma distinct_insort_cell: "distinct (insort_cell v us) \<longleftrightarrow> v \<notin> set us \<and> distinct us"
  by (induction us) (auto simp: set_insort_cell)

lemma set_sort_cells: "set (sort_cells vs) = set vs"
  by (induction vs) (auto simp: sort_cells_def set_insort_cell)

lemma distinct_sort_cells: "distinct (sort_cells vs) \<longleftrightarrow> distinct vs"
  by (induction vs) (auto simp: sort_cells_def distinct_insort_cell set_sort_cells [unfolded sort_cells_def])

lemma set_categories: "set (categories c) = set c - {NaN}"
  by (auto simp: categories_def set_sort_cells)

lemma distinct_categories: "distinct (categories c)"
  by (simp add: categories_def distinct_sort_cells)

lemma length_categories: "length (categories c) = card (set c - {NaN})"
  using distinct_card [OF distinct_categories, of c] by (simp add: set_categories)

lemma length_filter_eq_distinct:
  "distinct xs \<Longrightarrow> length (filter (\<lambda>v. a = v) xs) = (if a \<in> set xs then 1 else 0)"
  by (induction xs) auto

lemma dummy_names_distinct:
  assumes "inj_on (py_str fmt) (set c - {NaN})"
  shows "distinct (map fst (get_dummies fmt target c))"
proof -
  have "inj_on (dummy_name fmt target) (set (categories c))"
    using assms by (auto simp: inj_on_def dummy_name_def set_categories)
  then have "distinct (map (dummy_name fmt target) (categories c))"
    by (simp add: distinct_map distinct_categories)
  then show ?thesis by (simp add: get_dummies_def comp_def)
qed

lemma foldl_set_col_other:
  "n \<notin> fst ` set ds \<Longrightarrow> get_col (foldl (\<lambda>T (n, v). set_col T n v) Z ds) n = get_col Z n"
  by (induction ds arbitrary: Z) (auto simp: get_col_set_col_other)

lemma foldl_set_col_same:
  "distinct (map fst ds) \<Longrightarrow> (n, v) \<in> set ds \<Longrightarrow>
     get_col (foldl (\<lambda>T (n, v). set_col T n v) Z ds) n = Some v"
proof (induction ds arbitrary: Z)
  case Nil
  then show ?case by simp
next
  case (Cons d ds)
  show ?case
  proof (cases "d = (n, v)")
    case True
    with Cons.prems(1) have "n \<notin> fst ` set ds" by auto
    with True show ?thesis by (simp add: foldl_set_col_other get_col_set_col_same)
  next
    case False
    with Cons show ?thesis by (auto split: prod.splits)
  qed
qed

lemma nrows_foldl_set_col: "nrows (foldl (\<lambda>T (n, v). set_col T n v) Z ds) = nrows Z"
  by (induction ds arbitrary: Z) (auto simp: nrows_set_col)

lemma foldl_set_col_append:
  "distinct (map fst ds) \<Longrightarrow> \<forall>n \<in> fst ` set ds. n \<notin> set (columns Z) \<Longrightarrow>
     foldl (\<lambda>T (n, v). set_col T n v) Z ds = Z\<lparr>cols := cols Z @ ds\<rparr>"
proof (induction ds arbitrary: Z)
  case Nil
  then show ?case by simp
next
  case (Cons d ds)
  obtain n v where d: "d = (n, v)" by (cases d)
  from Cons.prems d have step: "set_col Z n v = Z\<lparr>cols := cols Z @ [(n, v)]\<rparr>"
    by (simp add: set_col_def)
  have "\<forall>m \<in> fst ` set ds. m \<notin> set (columns (Z\<lparr>cols := cols Z @ [(n, v)]\<rparr>))"
    using Cons.prems d by (auto simp: columns_def)
  with Cons.IH [of "Z\<lparr>cols := cols Z @ [(n, v)]\<rparr>"] Cons.prems(1)
  have "foldl (\<lambda>T (n, v). set_col T n v) (Z\<lparr>cols := cols Z @ [(n, v)]\<rparr>) ds
        = Z\<lparr>cols := cols Z @ [(n, v)] @ ds\<rparr>"
    by simp
  with step d show ?case by simp
qed

lemma dummy_name_not_target:
  "dummy_name fmt target v \<noteq> target" "target \<noteq> dummy_name fmt target v"
  by (simp_all add: dummy_name_def)


lemma ohe_transform_run:
  assumes "get_col X target = Some c" and "inj_on (py_str fmt) (set c - {NaN})"
  shows "ohe_transform fmt target X
           = Inr (foldl (\<lambda>T (n, v). set_col T n v) (drop_cols X [target]) (get_dummies fmt target c))"
  using assms by (simp add: ohe_transform_def dummy_names_distinct)

text \<open>
  C5 (amended). On a table that has the target column, and when distinct values of that
  column are printed differently, \<open>transform\<close> succeeds. It makes as many indicator
  columns as the target column has distinct values that are not missing; the column of
  the value \<open>v\<close> is named \<open>target_v\<close> and holds 1 in the rows whose cell is \<open>v\<close> and 0
  in the others. In a row whose target cell is not missing exactly one indicator is 1;
  in a row whose target cell is missing none is. The target column is gone and the row
  count is kept.
\<close>

theorem ohe_transform_spec:
  assumes "get_col X target = Some c" and "inj_on (py_str fmt) (set c - {NaN})"
  shows "\<exists>Y. ohe_transform fmt target X = Inr Y
           \<and> length (get_dummies fmt target c) = card (set c - {NaN})
           \<and> (\<forall>v \<in> set c - {NaN}.
                 get_col Y (target @ ''_'' @ py_str fmt v)
                   = Some (map (\<lambda>x. if x = v then Num 1 else Num 0) c))
           \<and> (\<forall>i < length c.
                 length (filter (\<lambda>(n, col). col ! i = Num 1) (get_dummies fmt target c))
                   = (if c ! i = NaN then 0 else 1))
           \<and> get_col Y target = None \<and> nrows Y = nrows X"
proof -
  let ?ds = "get_dummies fmt target c"
  let ?Y = "foldl (\<lambda>T (n, v). set_col T n v) (drop_cols X [target]) ?ds"
  have run: "ohe_transform fmt target X = Inr ?Y"
    using assms by (rule ohe_transform_run)
  have count: "length ?ds = card (set c - {NaN})"
    by (simp add: get_dummies_def length_categories)
  have named: "\<forall>v \<in> set c - {NaN}.
                 get_col ?Y (target @ ''_'' @ py_str fmt v)
                   = Some (map (\<lambda>x. if x = v then Num 1 else Num 0) c)"
  proof
    fix v assume "v \<in> set c - {NaN}"
    then have "(dummy_name fmt target v, indicator v c) \<in> set ?ds"
      by (simp add: get_dummies_def set_categories)
    with dummy_names_distinct [OF assms(2)]
    have "get_col ?Y (dummy_name fmt target v) = Some (indicator v c)"
      by (rule foldl_set_col_same)
    then show "get_col ?Y (target @ ''_'' @ py_str fmt v)
                 = Some (map (\<lambda>x. if x = v then Num 1 else Num 0) c)"
      by (simp add: dummy_name_def indicator_def)
  qed
  have rows: "\<forall>i < length c.
                 length (filter (\<lambda>(n, col). col ! i = Num 1) ?ds) = (if c ! i = NaN then 0 else 1)"
  proof (intro allI impI)
    fix i assume i: "i < length c"
    have "length (filter (\<lambda>(n, col). col ! i = Num 1) ?ds)
            = length (filter (\<lambda>v. c ! i = v) (categories c))"
      using i by (simp add: get_dummies_def filter_map comp_def indicator_def)
    also have "\<dots> = (if c ! i \<in> set (categories c) then 1 else 0)"
      by (rule length_filter_eq_distinct) (rule distinct_categories)
    also have "\<dots> = (if c ! i = NaN then 0 else 1)"
      using i by (simp add: set_categories)
    finally show "length (filter (\<lambda>(n, col). col ! i = Num 1) ?ds) = (if c ! i = NaN then 0 else 1)" .
  qed
  have "target \<notin> fst ` set ?ds"
    by (auto simp: get_dummies_def dummy_name_not_target)
  then have gone: "get_col ?Y target = None"
    by (simp add: foldl_set_col_other get_col_drop_cols_dropped)
  have size: "nrows ?Y = nrows X"
    by (simp add: nrows_foldl_set_col nrows_drop_cols)
  from run count named rows gone size show ?thesis by simp
qed

text \<open>
  The theorem on the column \<open>['b', 'a', nan, 'b']\<close>: two indicator columns, and the third row
  has no indicator set.
\<close>

theorem ohe_transform_spec_witness:
  "get_col \<lparr>nrows = 4, cols = [(''c'', [Str ''b'', Str ''a'', NaN, Str ''b'']), (''z'', [Num 1, Num 2, Num 3, Num 4])]\<rparr> ''c''
     = Some [Str ''b'', Str ''a'', NaN, Str ''b'']
   \<and> inj_on (py_str (\<lambda>r. ''num'')) (set [Str ''b'', Str ''a'', NaN, Str ''b''] - {NaN})
   \<and> ohe_transform (\<lambda>r. ''num'') ''c''
        \<lparr>nrows = 4, cols = [(''c'', [Str ''b'', Str ''a'', NaN, Str ''b'']), (''z'', [Num 1, Num 2, Num 3, Num 4])]\<rparr>
       = Inr \<lparr>nrows = 4, cols = [(''z'', [Num 1, Num 2, Num 3, Num 4]),
                                  (''c_a'', [Num 0, Num 1, Num 0, Num 0]),
                                  (''c_b'', [Num 1, Num 0, Num 0, Num 1])]\<rparr>
   \<and> card (set [Str ''b'', Str ''a'', NaN, Str ''b''] - {NaN}) = 2"
proof -
  let ?c = "[Str ''b'', Str ''a'', NaN, Str ''b'']"
  let ?X = "\<lparr>nrows = 4, cols = [(''c'', ?c), (''z'', [Num 1, Num 2, Num 3, Num 4])]\<rparr>"
  have col: "get_col ?X ''c'' = Some ?c" by (simp add: get_col_def)
  have inj: "inj_on (py_str (\<lambda>r. ''num'')) (set ?c - {NaN})" by (auto simp: inj_on_def)
  have cats: "categories ?c = [Str ''a'', Str ''b'']"
    by (simp add: categories_def sort_cells_def)
  have run: "ohe_transform (\<lambda>r. ''num'') ''c'' ?X
       = Inr \<lparr>nrows = 4, cols = [(''z'', [Num 1, Num 2, Num 3, Num 4]),
                                  (''c_a'', [Num 0, Num 1, Num 0, Num 0]),
                                  (''c_b'', [Num 1, Num 0, Num 0, Num 1])]\<rparr>"
    by (simp add: ohe_transform_def get_col_def get_dummies_def cats dummy_name_def indicator_def
        drop_cols_def set_col_def columns_def)
  have "length (get_dummies (\<lambda>r. ''num'') ''c'' ?c) = 2"
    by (simp add: get_dummies_def cats)
  with ohe_transform_spec [OF col inj] have "card (set ?c - {NaN}) = 2" by auto
  with col inj run show ?thesis by simp
qed

text \<open>
  C5 as stated fails on a row whose target cell is missing: the column \<open>['a', nan]\<close> gives
  the single indicator column \<open>[1, 0]\<close>, and the second row has no indicator set to 1.
\<close>

theorem ohe_missing_row_counterexample:
  "ohe_transform (\<lambda>r. ''num'') ''c'' \<lparr>nrows = 2, cols = [(''c'', [Str ''a'', NaN])]\<rparr>
     = Inr \<lparr>nrows = 2, cols = [(''c_a'', [Num 1, Num 0])]\<rparr>
   \<and> [Num 1, Num 0] ! 1 \<noteq> Num 1"
  by (simp add: ohe_transform_def get_col_def get_dummies_def categories_def sort_cells_def
      dummy_name_def indicator_def drop_cols_def set_col_def columns_def)

text \<open>
  C10 (amended). On a table that has the target column, when distinct values of that
  column are printed differently and no column of the table bears the name of an
  indicator column, the result is the table's other columns, in their original order and
  with their cells, followed by the indicator columns.
\<close>

theorem ohe_columns_appended:
  assumes "get_col X target = Some c" and "inj_on (py_str fmt) (set c - {NaN})"
    and "\<forall>v \<in> set c - {NaN}. target @ ''_'' @ py_str fmt v \<notin> set (columns X)"
  shows "ohe_transform fmt target X
           = Inr (X\<lparr>cols := filter (\<lambda>(n, x). n \<noteq> target) (cols X) @ get_dummies fmt target c\<rparr>)"
proof -
  let ?ds = "get_dummies fmt target c"
  let ?Z = "drop_cols X [target]"
  have "\<forall>n \<in> fst ` set ?ds. n \<notin> set (columns ?Z)"
    using assms(3) by (auto simp: get_dummies_def set_categories dummy_name_def columns_drop_cols)
  with dummy_names_distinct [OF assms(2)]
  have "foldl (\<lambda>T (n, v). set_col T n v) ?Z ?ds = ?Z\<lparr>cols := cols ?Z @ ?ds\<rparr>"
    by (rule foldl_set_col_append)
  then show ?thesis
    using assms(1,2) by (simp add: ohe_transform_run drop_cols_def)
qed

text \<open>The theorem on a table with the columns \<open>a\<close>, \<open>c\<close> and \<open>z\<close>, encoding \<open>c\<close>.\<close>

theorem ohe_columns_appended_witness:
  "get_col \<lparr>nrows = 2, cols = [(''a'', [Num 7, Num 8]), (''c'', [Str ''y'', Str ''x'']), (''z'', [Num 9, Num 9])]\<rparr> ''c''
     = Some [Str ''y'', Str ''x'']
   \<and> inj_on (py_str (\<lambda>r. ''num'')) (set [Str ''y'', Str ''x''] - {NaN})
   \<and> ''c_x'' \<notin> set [''a'', ''c'', ''z''] \<and> ''c_y'' \<notin> set [''a'', ''c'', ''z'']
   \<and> ohe_transform (\<lambda>r. ''num'') ''c''
        \<lparr>nrows = 2, cols = [(''a'', [Num 7, Num 8]), (''c'', [Str ''y'', Str ''x'']), (''z'', [Num 9, Num 9])]\<rparr>
       = Inr \<lparr>nrows = 2, cols = [(''a'', [Num 7, Num 8]), (''z'', [Num 9, Num 9]),
                                  (''c_x'', [Num 0, Num 1]), (''c_y'', [Num 1, Num 0])]\<rparr>"
proof -
  let ?c = "[Str ''y'', Str ''x'']"
  let ?X = "\<lparr>nrows = 2, cols = [(''a'', [Num 7, Num 8]), (''c'', ?c), (''z'', [Num 9, Num 9])]\<rparr>"
  have col: "get_col ?X ''c'' = Some ?c" by (simp add: get_col_def)
  have inj: "inj_on (py_str (\<lambda>r. ''num'')) (set ?c - {NaN})" by (auto simp: inj_on_def)
  have free: "\<forall>v \<in> set ?c - {NaN}. ''c'' @ ''_'' @ py_str (\<lambda>r. ''num'') v \<notin> set (columns ?X)"
    by (simp add: columns_def)
  have cats: "categories ?c = [Str ''x'', Str ''y'']"
    by (simp add: categories_def sort_cells_def)
  from ohe_columns_appended [OF col inj free] col inj show ?thesis
    by (simp add: get_dummies_def cats dummy_name_def indicator_def)
qed

text \<open>
  C10 as stated fails when a column already bears the name of an indicator: with the
  columns \<open>c\<close>, \<open>c_a\<close> and \<open>z\<close>, the indicator \<open>c_a\<close> overwrites the old column where it
  stands, in the first place, which the removed target column had, and before \<open>z\<close>.
\<close>

theorem ohe_name_clash_counterexample:
  "ohe_transform (\<lambda>r. ''num'') ''c''
      \<lparr>nrows = 2, cols = [(''c'', [Str ''a'', Str ''b'']), (''c_a'', [Num 7, Num 8]), (''z'', [Num 9, Num 9])]\<rparr>
     = Inr \<lparr>nrows = 2, cols = [(''c_a'', [Num 1, Num 0]), (''z'', [Num 9, Num 9]), (''c_b'', [Num 0, Num 1])]\<rparr>
   \<and> columns \<lparr>nrows = 2, cols = [(''c'', [Str ''a'', Str ''b'']), (''c_a'', [Num 7, Num 8]), (''z'', [Num 9, Num 9])]\<rparr> ! 0
       = ''c''
   \<and> columns \<lparr>nrows = 2, cols = [(''c_a'', [Num 1, Num 0]), (''z'', [Num 9, Num 9]), (''c_b'', [Num 0, Num 1])]\<rparr> ! 0
       = ''c_a''"
  by (simp add: ohe_transform_def get_col_def get_dummies_def categories_def sort_cells_def
      dummy_name_def indicator_def drop_cols_def set_col_def columns_def)

section \<open>Target encoding\<close>

lemma length_category_labels:
  "length c = length y \<Longrightarrow> length (category_labels c y k) = count_list c k"
proof (induction c arbitrary: y)
  case Nil
  then show ?case by (simp add: category_labels_def)
next
  case (Cons x c)
  then obtain l ys where y: "y = l # ys" by (cases y) auto
  with Cons.prems have "length c = length ys" by simp
  from Cons.IH [OF this] y show ?case by (simp add: category_labels_def)
qed

lemma map_of_tabulate:
  "k \<in> set ks \<Longrightarrow> map_of (map (\<lambda>k. (k, f k)) ks) k = Some (f k)"
  by (induction ks) auto

lemma fst_set_tabulate: "fst ` set (map (\<lambda>k. (k, f k)) ks) = set ks"
  by (induction ks) auto

text \<open>
  What \<open>fit\<close> stores: the label mean, and for every category of the training column that
  is not missing its smoothed mean \<open>(n * category_mean + s * global_mean) / (n + s)\<close>.
\<close>

lemma target_fit_spec:
  assumes "get_col X (col t) = Some c" and "length c = nrows X" and "nrows X = length y"
    and "0 \<le> smoothing t"
  shows "\<exists>d. target_fit t X y = Inr (t\<lparr>global_mean := Some (mean_of y), encoding_dict := Some d\<rparr>)
           \<and> fst ` set d = set c - {NaN}
           \<and> (\<forall>k \<in> set c - {NaN}.
                 real (count_list c k) + smoothing t \<noteq> 0
                 \<and> map_of d k =
                     Some (Some ((real (count_list c k)
                                    * (sum_list (category_labels c y k) / real (count_list c k))
                                  + smoothing t * (sum_list y / real (length y)))
                                 / (real (count_list c k) + smoothing t))))"
proof -
  let ?ks = "remdups (filter (\<lambda>v. v \<noteq> NaN) c)"
  let ?enc = "\<lambda>k. smoothed_mean (count_list c k) (mean_of (category_labels c y k)) (smoothing t) (mean_of y)"
  let ?d = "map (\<lambda>k. (k, ?enc k)) ?ks"
  have run: "target_fit t X y = Inr (t\<lparr>global_mean := Some (mean_of y), encoding_dict := Some ?d\<rparr>)"
    using assms(1,3) by (simp add: target_fit_def Let_def comp_def)
  have "fst ` set ?d = set ?ks"
    by (rule fst_set_tabulate)
  then have keys: "fst ` set ?d = set c - {NaN}"
    by auto
  have vals: "real (count_list c k) + smoothing t \<noteq> 0
              \<and> map_of ?d k =
                  Some (Some ((real (count_list c k)
                                 * (sum_list (category_labels c y k) / real (count_list c k))
                               + smoothing t * (sum_list y / real (length y)))
                              / (real (count_list c k) + smoothing t)))"
    if k: "k \<in> set c - {NaN}" for k
  proof -
    from k have "count_list c k \<noteq> 0" by (simp add: count_list_0_iff)
    then have pos: "0 < count_list c k" by simp
    with assms(4) have nz: "real (count_list c k) + smoothing t \<noteq> 0" by simp
    from assms(2,3) have "length (category_labels c y k) = count_list c k"
      by (simp add: length_category_labels)
    with pos have cm: "mean_of (category_labels c y k)
                         = Some (sum_list (category_labels c y k) / real (count_list c k))"
      by (auto simp: mean_of_def)
    from k assms(2,3) have "y \<noteq> []" by auto
    then have gm: "mean_of y = Some (sum_list y / real (length y))"
      by (simp add: mean_of_def)
    from k have "k \<in> set ?ks" by simp
    then have "map_of ?d k = Some (?enc k)" by (rule map_of_tabulate)
    with cm gm nz show ?thesis by (simp add: smoothed_mean_def lift2_def)
  qed
  from run keys vals show ?thesis by blast
qed

text \<open>
  What \<open>transform\<close> does with a dictionary that is not empty: every cell of the encoded
  column becomes its category's stored mean, and a cell that is no key of the dictionary
  becomes the missing marker; the other columns are unchanged.
\<close>

lemma target_transform_spec:
  assumes "encoding_dict t = Some d" and "d \<noteq> []" and "get_col X (col t) = Some c"
  shows "\<exists>Y. target_transform t X = Inr Y
           \<and> get_col Y (col t)
               = Some (map (\<lambda>x. case map_of d x of Some (Some r) \<Rightarrow> Num r | _ \<Rightarrow> NaN) c)
           \<and> (\<forall>i < length c. c ! i \<notin> fst ` set d \<longrightarrow>
                 map (\<lambda>x. case map_of d x of Some (Some r) \<Rightarrow> Num r | _ \<Rightarrow> NaN) c ! i = NaN)
           \<and> (\<forall>k. k \<noteq> col t \<longrightarrow> get_col Y k = get_col X k)
           \<and> columns Y = columns X \<and> nrows Y = nrows X"
proof -
  let ?Y = "set_col X (col t) (map (encode_cell d) c)"
  have "target_transform t X = Inr ?Y"
    using assms by (simp add: target_transform_def)
  moreover have "map (encode_cell d) c
                   = map (\<lambda>x. case map_of d x of Some (Some r) \<Rightarrow> Num r | _ \<Rightarrow> NaN) c"
    by (simp add: encode_cell_def)
  moreover have "\<forall>i < length c. c ! i \<notin> fst ` set d \<longrightarrow>
                 map (\<lambda>x. case map_of d x of Some (Some r) \<Rightarrow> Num r | _ \<Rightarrow> NaN) c ! i = NaN"
    by (simp add: map_of_eq_None_iff [THEN iffD2])
  ultimately show ?thesis
    using assms(3)
    by (simp add: get_col_set_col_same get_col_set_col_other columns_set_col_present
        get_col_Some_columns nrows_set_col)
qed

text \<open>
  \<open>target_fit_spec\<close> on the example of the specification: the categories \<open>'a'\<close> and \<open>'b'\<close>
  get (2 * 1 + 10 * 2/3) / 12 = 13/18 and (1 * 0 + 10 * 2/3) / 11 = 20/33.
\<close>

theorem target_fit_spec_witness:
  "get_col \<lparr>nrows = 3, cols = [(''cat'', [Str ''a'', Str ''a'', Str ''b''])]\<rparr> ''cat''
     = Some [Str ''a'', Str ''a'', Str ''b'']
   \<and> (0 :: real) \<le> 10
   \<and> target_fit \<lparr>col = ''cat'', smoothing = 10, global_mean = None, encoding_dict = None\<rparr>
        \<lparr>nrows = 3, cols = [(''cat'', [Str ''a'', Str ''a'', Str ''b''])]\<rparr> [1, 1, 0]
       = Inr \<lparr>col = ''cat'', smoothing = 10, global_mean = Some (Some (2 / 3)),
              encoding_dict = Some [(Str ''a'', Some (13 / 18)), (Str ''b'', Some (20 / 33))]\<rparr>"
proof -
  let ?X = "\<lparr>nrows = 3, cols = [(''cat'', [Str ''a'', Str ''a'', Str ''b''])]\<rparr>"
  let ?t = "\<lparr>col = ''cat'', smoothing = 10, global_mean = None, encoding_dict = None\<rparr>"
  have c: "get_col ?X (col ?t) = Some [Str ''a'', Str ''a'', Str ''b'']"
    by (simp add: get_col_def)
  have len: "length [Str ''a'', Str ''a'', Str ''b''] = nrows ?X" "nrows ?X = length [1, 1, 0 :: real]"
    by simp_all
  have s: "0 \<le> smoothing ?t" by simp
  from target_fit_spec [OF c len s] c show ?thesis
    by (simp add: target_fit_def mean_of_def category_labels_def smoothed_mean_def lift2_def Let_def)
qed

text \<open>\<open>target_transform_spec\<close> on that encoding: the unseen category \<open>'c'\<close> becomes missing.\<close>

theorem target_transform_spec_witness:
  "target_transform \<lparr>col = ''cat'', smoothing = 10, global_mean = Some (Some (2 / 3)),
        encoding_dict = Some [(Str ''a'', Some (13 / 18)), (Str ''b'', Some (20 / 33))]\<rparr>
      \<lparr>nrows = 2, cols = [(''cat'', [Str ''b'', Str ''c''])]\<rparr>
     = Inr \<lparr>nrows = 2, cols = [(''cat'', [Num (20 / 33), NaN])]\<rparr>
   \<and> Str ''c'' \<notin> fst ` set [(Str ''a'', Some (13 / 18 :: real)), (Str ''b'', Some (20 / 33))]"
proof -
  let ?d = "[(Str ''a'', Some (13 / 18 :: real)), (Str ''b'', Some (20 / 33))]"
  let ?t = "\<lparr>col = ''cat'', smoothing = 10, global_mean = Some (Some (2 / 3)), encoding_dict = Some ?d\<rparr>"
  let ?X = "\<lparr>nrows = 2, cols = [(''cat'', [Str ''b'', Str ''c''])]\<rparr>"
  have d: "encoding_dict ?t = Some ?d" "?d \<noteq> []" by simp_all
  have c: "get_col ?X (col ?t) = Some [Str ''b'', Str ''c'']" by (simp add: get_col_def)
  from target_transform_spec [OF d c] show ?thesis
    by (simp add: target_transform_def get_col_def set_col_def columns_def encode_cell_def)
qed

text \<open>
  C4, the failing input. A training column whose cells are all missing gives the empty
  dictionary; \<open>transform\<close> then takes the fitted transformer for an unfitted one and
  fails, instead of encoding the unseen category \<open>'c'\<close> as missing.
\<close>

theorem target_transform_after_empty_fit:
  "target_fit \<lparr>col = ''cat'', smoothing = 10, global_mean = None, encoding_dict = None\<rparr>
      \<lparr>nrows = 2, cols = [(''cat'', [NaN, NaN])]\<rparr> [1, 0]
     = Inr \<lparr>col = ''cat'', smoothing = 10, global_mean = Some (Some (1 / 2)),
            encoding_dict = Some []\<rparr>
   \<and> target_transform \<lparr>col = ''cat'', smoothing = 10, global_mean = Some (Some (1 / 2)),
            encoding_dict = Some []\<rparr>
        \<lparr>nrows = 1, cols = [(''cat'', [Str ''c''])]\<rparr>
       = Inl AssertionError"
  by (simp add: target_fit_def target_transform_def get_col_def mean_of_def Let_def)


section \<open>Seed search\<close>

lemma collect_ratios_spec:
  assumes "\<forall>i \<in> set seeds. evaluate i = Inr (scores i)"
  shows "collect_ratios evaluate seeds Var
           = Inr (Var @ map (\<lambda>i. snd (scores i) / fst (scores i))
                          (filter (\<lambda>i. \<not> fst (scores i) < 0.1) seeds))"
  using assms
proof (induction seeds arbitrary: Var)
  case Nil
  then show ?case by simp
next
  case (Cons i seeds)
  then have "evaluate i = Inr (scores i)" by simp
  moreover obtain a b where "scores i = (a, b)" by (cases "scores i")
  ultimately show ?case using Cons by simp
qed

lemma argmin_from_spec:
  assumes "b < length ys" and "ys ! b = bv" and "i = length ys"
    and "\<forall>j < length ys. bv \<le> ys ! j" and "\<forall>j < b. bv < ys ! j"
  shows "argmin_from b bv i xs < length (ys @ xs)
         \<and> (\<forall>j < length (ys @ xs). (ys @ xs) ! argmin_from b bv i xs \<le> (ys @ xs) ! j)
         \<and> (\<forall>j < argmin_from b bv i xs. (ys @ xs) ! argmin_from b bv i xs < (ys @ xs) ! j)"
  using assms
proof (induction xs arbitrary: b bv i ys)
  case Nil
  then show ?case by simp
next
  case (Cons x xs)
  show ?case
  proof (cases "x < bv")
    case True
    have "argmin_from (length ys) x (Suc (length ys)) xs < length ((ys @ [x]) @ xs)
         \<and> (\<forall>j < length ((ys @ [x]) @ xs).
               ((ys @ [x]) @ xs) ! argmin_from (length ys) x (Suc (length ys)) xs \<le> ((ys @ [x]) @ xs) ! j)
         \<and> (\<forall>j < argmin_from (length ys) x (Suc (length ys)) xs.
               ((ys @ [x]) @ xs) ! argmin_from (length ys) x (Suc (length ys)) xs < ((ys @ [x]) @ xs) ! j)"
    proof (rule Cons.IH)
      show "\<forall>j < length (ys @ [x]). x \<le> (ys @ [x]) ! j"
        using True Cons.prems(4) by (auto simp: nth_append less_Suc_eq)
      show "\<forall>j < length ys. x < (ys @ [x]) ! j"
        using True Cons.prems(4) by (auto simp: nth_append)
    qed simp_all
    with True Cons.prems(3) show ?thesis by simp
  next
    case False
    have "argmin_from b bv (Suc (length ys)) xs < length ((ys @ [x]) @ xs)
         \<and> (\<forall>j < length ((ys @ [x]) @ xs).
               ((ys @ [x]) @ xs) ! argmin_from b bv (Suc (length ys)) xs \<le> ((ys @ [x]) @ xs) ! j)
         \<and> (\<forall>j < argmin_from b bv (Suc (length ys)) xs.
               ((ys @ [x]) @ xs) ! argmin_from b bv (Suc (length ys)) xs < ((ys @ [x]) @ xs) ! j)"
    proof (rule Cons.IH)
      show "b < length (ys @ [x])" using Cons.prems(1) by simp
      show "(ys @ [x]) ! b = bv" using Cons.prems(1,2) by (simp add: nth_append)
      show "\<forall>j < length (ys @ [x]). bv \<le> (ys @ [x]) ! j"
        using False Cons.prems(4) by (auto simp: nth_append less_Suc_eq)
      show "\<forall>j < b. bv < (ys @ [x]) ! j"
        using Cons.prems(1,5) by (auto simp: nth_append)
    qed simp
    with False Cons.prems(3) show ?thesis by simp
  qed
qed

text \<open>\<open>argmin\<close> is the index of the first least element.\<close>

lemma argmin_spec:
  assumes "xs \<noteq> []"
  shows "\<exists>k. argmin xs = Some k \<and> k < length xs
           \<and> (\<forall>j < length xs. xs ! k \<le> xs ! j) \<and> (\<forall>j < k. xs ! k < xs ! j)"
proof -
  from assms obtain x rest where xs: "xs = x # rest" by (cases xs) auto
  have "argmin_from 0 x 1 rest < length ([x] @ rest)
         \<and> (\<forall>j < length ([x] @ rest). ([x] @ rest) ! argmin_from 0 x 1 rest \<le> ([x] @ rest) ! j)
         \<and> (\<forall>j < argmin_from 0 x 1 rest. ([x] @ rest) ! argmin_from 0 x 1 rest < ([x] @ rest) ! j)"
    by (rule argmin_from_spec) simp_all
  with xs show ?thesis by (simp add: argmin_def)
qed

text \<open>
  What \<open>find_random_state\<close> returns when every seed can be evaluated and one at least is
  not skipped: the list of the ratios of the seeds whose train F1 is not below 0.1, in
  the order of the seeds, and the position in that list of the first ratio closest to
  the mean of the list.
\<close>

lemma find_random_state_spec:
  assumes "\<forall>i < nat n. evaluate i = Inr (scores i)"
    and "\<exists>i < nat n. \<not> fst (scores i) < 0.1"
  shows "\<exists>k Var. find_random_state evaluate n = Inr (k, Var)
           \<and> Var = map (\<lambda>i. snd (scores i) / fst (scores i))
                     (filter (\<lambda>i. \<not> fst (scores i) < 0.1) [0..<nat n])
           \<and> k < length Var
           \<and> (\<forall>j < length Var. \<bar>Var ! k - sum_list Var / real (length Var)\<bar>
                                  \<le> \<bar>Var ! j - sum_list Var / real (length Var)\<bar>)
           \<and> (\<forall>j < k. \<bar>Var ! k - sum_list Var / real (length Var)\<bar>
                         < \<bar>Var ! j - sum_list Var / real (length Var)\<bar>)"
proof -
  let ?Var = "map (\<lambda>i. snd (scores i) / fst (scores i))
                (filter (\<lambda>i. \<not> fst (scores i) < 0.1) [0..<nat n])"
  let ?d = "map (\<lambda>r. \<bar>r - sum_list ?Var / real (length ?Var)\<bar>) ?Var"
  from assms(1) have "collect_ratios evaluate [0..<nat n] [] = Inr ([] @ ?Var)"
    by (intro collect_ratios_spec) simp
  then have loop: "collect_ratios evaluate [0..<nat n] [] = Inr ?Var" by simp
  from assms(2) have "?d \<noteq> []" by (auto simp: filter_empty_conv)
  from argmin_spec [OF this] obtain k where k: "argmin ?d = Some k" "k < length ?d"
    "\<forall>j < length ?d. ?d ! k \<le> ?d ! j" "\<forall>j < k. ?d ! k < ?d ! j"
    by blast
  from loop k(1) have "find_random_state evaluate n = Inr (k, ?Var)"
    by (simp add: find_random_state_def)
  moreover from k(2) have "k < length ?Var" by simp
  moreover from k(2,3) have "\<forall>j < length ?Var. \<bar>?Var ! k - sum_list ?Var / real (length ?Var)\<bar>
                                  \<le> \<bar>?Var ! j - sum_list ?Var / real (length ?Var)\<bar>"
    by (simp del: map_map)
  moreover from k(2,4) have "\<forall>j < k. \<bar>?Var ! k - sum_list ?Var / real (length ?Var)\<bar>
                         < \<bar>?Var ! j - sum_list ?Var / real (length ?Var)\<bar>"
    by (simp del: map_map)
  ultimately show ?thesis by blast
qed

text \<open>
  \<open>find_random_state_spec\<close> on three seeds none of which is skipped: the ratios are
  0.5, 1 and 0.9, the mean is 0.8, and the position returned, 2, is then also the seed.
\<close>

theorem find_random_state_spec_witness:
  "find_random_state (\<lambda>i. Inr ([(1, 0.5), (1, 1), (1, 0.9)] ! i)) 3 = Inr (2, [0.5, 1, 0.9])"
proof -
  let ?scores = "\<lambda>i. [(1, 0.5), (1, 1), (1, 0.9 :: real)] ! i :: real \<times> real"
  have seeds: "[0..<nat 3] = [0, 1, 2]" by code_simp
  have ev: "\<forall>i < nat 3. (Inr (?scores i) :: error + real \<times> real) = Inr (?scores i)" by simp
  have valid: "\<exists>i < nat 3. \<not> fst (?scores i) < 0.1"
    by (rule exI [of _ 0]) simp
  from find_random_state_spec [of 3 "\<lambda>i. Inr (?scores i)" ?scores, OF ev valid]
  obtain k Var where run: "find_random_state (\<lambda>i. Inr (?scores i)) 3 = Inr (k, Var)"
    and Var: "Var = map (\<lambda>i. snd (?scores i) / fst (?scores i))
                     (filter (\<lambda>i. \<not> fst (?scores i) < 0.1) [0..<nat 3])"
    and k: "k < length Var"
    and least: "\<forall>j < length Var. \<bar>Var ! k - sum_list Var / real (length Var)\<bar>
                                  \<le> \<bar>Var ! j - sum_list Var / real (length Var)\<bar>"
    by blast
  from Var have V: "Var = [0.5, 1, 0.9]" unfolding seeds by simp
  from k V have "k = 0 \<or> k = 1 \<or> k = 2" by auto
  moreover from least V have "\<bar>Var ! k - sum_list Var / real (length Var)\<bar>
                                \<le> \<bar>Var ! 2 - sum_list Var / real (length Var)\<bar>"
    by (elim allE [of _ 2]) simp
  ultimately have "k = 2" using V by auto
  with run V show ?thesis by simp
qed

text \<open>
  C1, the failing input. Four seeds: seed 0 has the train F1 0.05 and is skipped, the seeds
  1, 2 and 3 have the ratios 0.5, 1 and 0.9, whose mean is 0.8. The ratio closest to the
  mean is 0.9, of seed 3; the function returns 2, the position of 0.9 in the list of the
  valid ratios, and seed 2 has the ratio 1.
\<close>

theorem find_random_state_returns_position:
  "find_random_state (\<lambda>i. Inr ([(0.05, 1), (1, 0.5), (1, 1), (1, 0.9)] ! i)) 4
     = Inr (2, [0.5, 1, 0.9])
   \<and> sum_list [0.5, 1, 0.9 :: real] / 3 = 0.8
   \<and> \<bar>0.9 - 0.8 :: real\<bar> < \<bar>1 - 0.8\<bar>"
proof -
  have seeds: "[0..<nat 4] = [0, 1, 2, 3]"
    by code_simp
  have loop: "collect_ratios (\<lambda>i. Inr ([(0.05, 1), (1, 0.5), (1, 1), (1, 0.9)] ! i)) [0, 1, 2, 3] []
                = Inr [0.5, 1, 0.9]"
    by simp
  have "find_random_state (\<lambda>i. Inr ([(0.05, 1), (1, 0.5), (1, 1), (1, 0.9)] ! i)) 4
          = Inr (2, [0.5, 1, 0.9])"
    unfolding find_random_state_def seeds loop by (simp add: argmin_def)
  then show ?thesis by simp
qed

section \<open>Transforms never write into the caller's table\<close>

lemma foldl_df_setitem:
  "r < length g \<Longrightarrow>
     foldl (\<lambda>h' (n, v). df_setitem r n v h') g ds
       = g[r := foldl (\<lambda>T (n, v). set_col T n v) (g ! r) ds]"
  by (induction ds arbitrary: g) (auto simp: df_setitem_def)

lemma mapping_transform_st_frame:
  "\<exists>h2. snd (mapping_transform_st t X h) = h @ h2
     \<and> (case fst (mapping_transform_st t X h) of
           Inl e \<Rightarrow> mapping_transform t (h ! X) = Inl e
         | Inr Y \<Rightarrow> length h \<le> Y \<and> Y < length (h @ h2)
                     \<and> mapping_transform t (h ! X) = Inr ((h @ h2) ! Y))"
  by (auto simp: mapping_transform_st_def mapping_transform_def df_getitem_def df_copy_def
      alloc_def df_setitem_def split: option.splits)

lemma ohe_transform_st_frame:
  "\<exists>h2. snd (ohe_transform_st fmt c X h) = h @ h2
     \<and> (case fst (ohe_transform_st fmt c X h) of
           Inl e \<Rightarrow> ohe_transform fmt c (h ! X) = Inl e
         | Inr Y \<Rightarrow> length h \<le> Y \<and> Y < length (h @ h2)
                     \<and> ohe_transform fmt c (h ! X) = Inr ((h @ h2) ! Y))"
proof (cases "get_col (h ! X) c")
  case None
  then show ?thesis
    by (simp add: ohe_transform_st_def ohe_transform_def df_getitem_def)
next
  case (Some col)
  let ?ds = "get_dummies fmt c col"
  let ?g = "h @ [h ! X, drop_cols (h ! X) [c]]"
  show ?thesis
  proof (cases "distinct (map fst ?ds)")
    case False
    with Some have "snd (ohe_transform_st fmt c X h) = ?g"
      and "fst (ohe_transform_st fmt c X h) = Inl ValueError"
      and "ohe_transform fmt c (h ! X) = Inl ValueError"
      by (simp_all add: ohe_transform_st_def ohe_transform_def df_getitem_def df_copy_def
          df_drop_def alloc_def Let_def)
    then show ?thesis by simp
  next
    case True
    have "foldl (\<lambda>h' (n, v). df_setitem (Suc (length h)) n v h') ?g ?ds
            = ?g[Suc (length h) := foldl (\<lambda>T (n, v). set_col T n v) (?g ! Suc (length h)) ?ds]"
      by (rule foldl_df_setitem) simp
    then have "foldl (\<lambda>h' (n, v). df_setitem (Suc (length h)) n v h') ?g ?ds
            = h @ [h ! X, foldl (\<lambda>T (n, v). set_col T n v) (drop_cols (h ! X) [c]) ?ds]"
      by (simp add: nth_append list_update_append)
    with Some True
    have "snd (ohe_transform_st fmt c X h)
            = h @ [h ! X, foldl (\<lambda>T (n, v). set_col T n v) (drop_cols (h ! X) [c]) ?ds]"
      and "fst (ohe_transform_st fmt c X h) = Inr (Suc (length h))"
      and "ohe_transform fmt c (h ! X)
            = Inr (foldl (\<lambda>T (n, v). set_col T n v) (drop_cols (h ! X) [c]) ?ds)"
      by (simp_all add: ohe_transform_st_def ohe_transform_def df_getitem_def df_copy_def
          df_drop_def alloc_def Let_def)
    then show ?thesis by (simp add: nth_append)
  qed
qed

lemma dropcols_transform_st_frame:
  "\<exists>h2. snd (dropcols_transform_st t X h) = h @ h2
     \<and> (case fst (dropcols_transform_st t X h) of
           Inl e \<Rightarrow> dropcols_transform t (h ! X) = Inl e
         | Inr Y \<Rightarrow> length h \<le> Y \<and> Y < length (h @ h2)
                     \<and> dropcols_transform t (h ! X) = Inr ((h @ h2) ! Y))"
  if "X < length h"
  using that
  by (auto simp: dropcols_transform_st_def dropcols_transform_def df_copy_def df_select_def
      df_drop_def alloc_def nth_append Let_def)

lemma sigma3_transform_st_frame:
  "\<exists>h2. snd (sigma3_transform_st t X h) = h @ h2
     \<and> (case fst (sigma3_transform_st t X h) of
           Inl e \<Rightarrow> sigma3_transform t (h ! X) = Inl e
         | Inr Y \<Rightarrow> length h \<le> Y \<and> Y < length (h @ h2)
                     \<and> sigma3_transform t (h ! X) = Inr ((h @ h2) ! Y))"
  by (auto simp: sigma3_transform_st_def sigma3_transform_def df_getitem_def df_copy_def
      alloc_def df_setitem_def split: option.splits)

lemma tukey_transform_st_frame:
  "\<exists>h2. snd (tukey_transform_st t X h) = h @ h2
     \<and> (case fst (tukey_transform_st t X h) of
           Inl e \<Rightarrow> tukey_transform t (h ! X) = Inl e
         | Inr Y \<Rightarrow> length h \<le> Y \<and> Y < length (h @ h2)
                     \<and> tukey_transform t (h ! X) = Inr ((h @ h2) ! Y))"
  by (auto simp: tukey_transform_st_def tukey_transform_def df_getitem_def df_copy_def
      alloc_def df_setitem_def split: option.splits)

lemma robust_transform_st_frame:
  "\<exists>h2. snd (robust_transform_st t X h) = h @ h2
     \<and> (case fst (robust_transform_st t X h) of
           Inl e \<Rightarrow> robust_transform t (h ! X) = Inl e
         | Inr Y \<Rightarrow> length h \<le> Y \<and> Y < length (h @ h2)
                     \<and> robust_transform t (h ! X) = Inr ((h @ h2) ! Y))"
  if "X < length h"
  using that
  by (auto simp: robust_transform_st_def robust_transform_def df_getitem_def df_copy_def
      alloc_def df_setitem_def nth_append split: option.splits)

lemma knn_transform_st_frame:
  "\<exists>h2. snd (knn_transform_st f t X h) = h @ h2
     \<and> (case fst (knn_transform_st f t X h) of
           Inl e \<Rightarrow> knn_transform f t (h ! X) = Inl e
         | Inr Y \<Rightarrow> length h \<le> Y \<and> Y < length (h @ h2)
                     \<and> knn_transform f t (h ! X) = Inr ((h @ h2) ! Y))"
  by (auto simp: knn_transform_st_def knn_transform_def alloc_def split: sum.splits)

lemma target_transform_st_frame:
  "\<exists>h2. snd (target_transform_st t X h) = h @ h2
     \<and> (case fst (target_transform_st t X h) of
           Inl e \<Rightarrow> target_transform t (h ! X) = Inl e
         | Inr Y \<Rightarrow> length h \<le> Y \<and> Y < length (h @ h2)
                     \<and> target_transform t (h ! X) = Inr ((h @ h2) ! Y))"
  by (auto simp: target_transform_st_def target_transform_def df_getitem_def df_copy_def
      alloc_def df_setitem_def split: option.splits)

lemma transform_st_frame:
  assumes "X < length h"
  shows "\<exists>h2. snd (transform_st ope X h) = h @ h2
     \<and> (case fst (transform_st ope X h) of
           Inl e \<Rightarrow> transform ope (h ! X) = Inl e
         | Inr Y \<Rightarrow> length h \<le> Y \<and> Y < length (h @ h2)
                     \<and> transform ope (h ! X) = Inr ((h @ h2) ! Y))"
proof (cases ope)
  case (Mapping t)
  show ?thesis unfolding Mapping transform.simps transform_st.simps by (rule mapping_transform_st_frame)
next
  case (OHE fmt c)
  show ?thesis unfolding OHE transform.simps transform_st.simps by (rule ohe_transform_st_frame)
next
  case (DropColumns t)
  show ?thesis unfolding DropColumns transform.simps transform_st.simps by (rule dropcols_transform_st_frame [OF assms])
next
  case (Sigma3 t)
  show ?thesis unfolding Sigma3 transform.simps transform_st.simps by (rule sigma3_transform_st_frame)
next
  case (Tukey t)
  show ?thesis unfolding Tukey transform.simps transform_st.simps by (rule tukey_transform_st_frame)
next
  case (Robust t)
  show ?thesis unfolding Robust transform.simps transform_st.simps by (rule robust_transform_st_frame [OF assms])
next
  case (KNN f t)
  show ?thesis unfolding KNN transform.simps transform_st.simps by (rule knn_transform_st_frame)
next
  case (Target t)
  show ?thesis unfolding Target transform.simps transform_st.simps by (rule target_transform_st_frame)
qed

text \<open>
  C9. Let \<open>X\<close> refer to a table of the heap \<open>h\<close>. Whatever operator is applied, and whether
  \<open>transform\<close> returns or raises, every table that was in the heap before the call, the
  caller's table among them, is the same after it. When the call returns, its result is
  a reference to a table allocated during the call, and that table is the result of the
  operator on the caller's table.
\<close>

theorem transform_leaves_input_unchanged:
  assumes "X < length h" and "transform_st ope X h = (res, h')"
  shows "h' ! X = h ! X
         \<and> length h \<le> length h' \<and> (\<forall>r < length h. h' ! r = h ! r)
         \<and> (case res of
               Inl e \<Rightarrow> transform ope (h ! X) = Inl e
             | Inr Y \<Rightarrow> Y \<noteq> X \<and> length h \<le> Y \<and> Y < length h'
                         \<and> transform ope (h ! X) = Inr (h' ! Y))"
proof -
  from transform_st_frame [OF assms(1), of ope] assms(2)
  obtain h2 where h': "h' = h @ h2"
    and res: "case res of
               Inl e \<Rightarrow> transform ope (h ! X) = Inl e
             | Inr Y \<Rightarrow> length h \<le> Y \<and> Y < length (h @ h2)
                         \<and> transform ope (h ! X) = Inr ((h @ h2) ! Y)"
    by auto
  from h' assms(1) have "h' ! X = h ! X" and "length h \<le> length h'"
    and "\<forall>r < length h. h' ! r = h ! r"
    by (simp_all add: nth_append)
  moreover from res h' assms(1)
  have "case res of
               Inl e \<Rightarrow> transform ope (h ! X) = Inl e
             | Inr Y \<Rightarrow> Y \<noteq> X \<and> length h \<le> Y \<and> Y < length h'
                         \<and> transform ope (h ! X) = Inr (h' ! Y)"
    by (auto split: sum.splits)
  ultimately show ?thesis by simp
qed


text \<open>
  The theorem for the mapping operator on a heap that holds one table, and for the robust
  scaler on a table without its target column, where the call raises after the copy.
\<close>

theorem transform_leaves_input_unchanged_witness:
  "(0 :: nat) < length [\<lparr>nrows = 2, cols = [(''g'', [Str ''M'', Str ''F''])]\<rparr>]
   \<and> transform_st (Mapping \<lparr>mapping_column = ''g'', mapping_dict = [(Str ''M'', Num 0), (Str ''F'', Num 1)]\<rparr>)
        0 [\<lparr>nrows = 2, cols = [(''g'', [Str ''M'', Str ''F''])]\<rparr>]
       = (Inr 1, [\<lparr>nrows = 2, cols = [(''g'', [Str ''M'', Str ''F''])]\<rparr>,
                  \<lparr>nrows = 2, cols = [(''g'', [Num 0, Num 1])]\<rparr>])
   \<and> [\<lparr>nrows = 2, cols = [(''g'', [Str ''M'', Str ''F''])]\<rparr>,
       \<lparr>nrows = 2, cols = [(''g'', [Num 0, Num 1])]\<rparr>] ! 0
       = \<lparr>nrows = 2, cols = [(''g'', [Str ''M'', Str ''F''])]\<rparr>
   \<and> transform (Mapping \<lparr>mapping_column = ''g'', mapping_dict = [(Str ''M'', Num 0), (Str ''F'', Num 1)]\<rparr>)
        \<lparr>nrows = 2, cols = [(''g'', [Str ''M'', Str ''F''])]\<rparr>
       = Inr \<lparr>nrows = 2, cols = [(''g'', [Num 0, Num 1])]\<rparr>
   \<and> transform_st (Robust \<lparr>robust_target_column = ''x'', iqr = Some (Some 2), med = Some (Some 3)\<rparr>)
        0 [\<lparr>nrows = 2, cols = [(''g'', [Str ''M'', Str ''F''])]\<rparr>]
       = (Inl KeyError, [\<lparr>nrows = 2, cols = [(''g'', [Str ''M'', Str ''F''])]\<rparr>,
                         \<lparr>nrows = 2, cols = [(''g'', [Str ''M'', Str ''F''])]\<rparr>])"
proof -
  let ?X = "\<lparr>nrows = 2, cols = [(''g'', [Str ''M'', Str ''F''])]\<rparr>"
  let ?Y = "\<lparr>nrows = 2, cols = [(''g'', [Num 0, Num 1])]\<rparr>"
  let ?m = "Mapping \<lparr>mapping_column = ''g'', mapping_dict = [(Str ''M'', Num 0), (Str ''F'', Num 1)]\<rparr>"
  let ?r = "Robust \<lparr>robust_target_column = ''x'', iqr = Some (Some 2), med = Some (Some 3)\<rparr>"
  have ref: "(0 :: nat) < length [?X]" by simp
  have run1: "transform_st ?m 0 [?X] = (Inr 1, [?X, ?Y])"
    by (simp add: mapping_transform_st_def df_getitem_def df_copy_def alloc_def df_setitem_def
        get_col_def set_col_def columns_def replace_cell_def)
  have run2: "transform_st ?r 0 [?X] = (Inl KeyError, [?X, ?X])"
    by (simp add: robust_transform_st_def df_getitem_def df_copy_def alloc_def wall_bound_def
        get_col_def)
  from transform_leaves_input_unchanged [OF ref run1]
    transform_leaves_input_unchanged [OF ref run2] ref run1 run2
  show ?thesis by simp
qed

end
